theory Spec2Isabelle
  imports Main
begin

section \<open>The decoded AcoustID response\<close>

text \<open>
  The lookup response is decoded JSON. Each JSON object becomes a record; a key that the
  code tests with \<open>in\<close>, or whose absence a statement below is about, is an
  \<open>option\<close> field (\<open>None\<close>: the key is absent). Keys that the service's schema
  makes mandatory, and that the code reads without a test (\<open>status\<close>, an artist's
  \<open>name\<close>) or does not read (the \<open>id\<close> of a release group and of a result
  entry), are plain fields. Decoded JSON is a tree:
  no object occurs at two places, so a write into an artist shows at that place only, and
  the effects of the code on the response are modelled by passing the response along.
\<close>

record artist =
  a_id :: "string option"
  a_name :: string

record releasegroup =
  rg_id :: string
  rg_title :: "string option"
  rg_name :: "string option"
  rg_artists :: "artist list option"
  rg_secondarytypes :: "string list option"

text \<open>
  A recording of the response and a merged recording built by the merger are both
  dictionaries with the keys \<open>title\<close>, \<open>artists\<close> and \<open>releasegroups\<close>; the
  response's recordings may carry an \<open>id\<close> as well.
\<close>

record recording =
  rec_id :: "string option"
  rec_title :: "string option"
  rec_artists :: "artist list option"
  rec_releasegroups :: "releasegroup list option"

record result_entry =
  entry_id :: string
  entry_recordings :: "recording list option"

record lookup_response =
  resp_status :: string
  resp_results :: "result_entry list option"

text \<open>One entry of the list that \<open>lookup\<close> returns; \<open>None\<close> is Python's \<open>None\<close>.\<close>

record track_metadata =
  tm_artist :: string
  tm_title :: string
  tm_album :: "string option"
  tm_albumartist :: "string option"

text \<open>
  \<open>acoustid.WebServiceError\<close> with its message, and the \<open>KeyError\<close> of a
  dictionary subscript with the missing key.
\<close>

datatype error = WebServiceError string | KeyError string

section \<open>Release group filter\<close>

definition filter_out_compilations_from_releasegroups ::
  "releasegroup list \<Rightarrow> releasegroup list" where
  "filter_out_compilations_from_releasegroups releasegroups =
     (let filtered_releasegroups =
            filter (\<lambda>releasegroup. rg_secondarytypes releasegroup = None) releasegroups
      in if length filtered_releasegroups \<noteq> 0 then filtered_releasegroups else releasegroups)"

section \<open>Python's built-ins and the helpers of \<open>utils.list_helper\<close>\<close>

text \<open>\<open>sep.join(parts)\<close> on strings.\<close>

fun str_join :: "string \<Rightarrow> string list \<Rightarrow> string" where
  "str_join sep [] = []"
| "str_join sep [x] = x"
| "str_join sep (x # y # ys) = x @ sep @ str_join sep (y # ys)"

text \<open>
  A Python \<open>dict\<close> with string keys: an association list with distinct keys, in
  insertion order. \<open>contains k d\<close> is \<open>k in d\<close>, \<open>getitem d k\<close> is \<open>d[k]\<close>
  (which raises \<open>KeyError\<close> on a missing key) and \<open>setitem k v d\<close> is
  \<open>d[k] = v\<close>: an existing key keeps its position, a new key goes to the end.
\<close>

type_synonym 'v dict = "(string \<times> 'v) list"

definition contains :: "string \<Rightarrow> 'v dict \<Rightarrow> bool" where
  "contains k d = (map_of d k \<noteq> None)"

definition getitem :: "'v dict \<Rightarrow> string \<Rightarrow> error + 'v" where
  "getitem d k = (case map_of d k of None \<Rightarrow> Inl (KeyError k) | Some v \<Rightarrow> Inr v)"

fun setitem :: "string \<Rightarrow> 'v \<Rightarrow> 'v dict \<Rightarrow> 'v dict" where
  "setitem k v [] = [(k, v)]"
| "setitem k v (p # d) = (if fst p = k then (k, v) # d else p # setitem k v d)"

text \<open>
  \<open>d[t][k]\<close> and \<open>d[t][k] = v\<close> on a dictionary of dictionaries. The inner
  dictionary is an object shared with the outer one, so the assignment shows in \<open>d\<close>.
\<close>

definition getitem2 :: "'v dict dict \<Rightarrow> string \<Rightarrow> string \<Rightarrow> error + 'v" where
  "getitem2 d t k = (case getitem d t of Inl e \<Rightarrow> Inl e | Inr inner \<Rightarrow> getitem inner k)"

definition setitem2 :: "string \<Rightarrow> string \<Rightarrow> 'v \<Rightarrow> 'v dict dict \<Rightarrow> error + 'v dict dict" where
  "setitem2 t k v d =
     (case getitem d t of Inl e \<Rightarrow> Inl e | Inr inner \<Rightarrow> Inr (setitem t (setitem k v inner) d))"

text \<open>
  Modelled from the spec: \<open>utils.list_helper.flatten\<close>, whose file is not part of the
  sources. The spec's Recording Extractor concatenates the \<open>recordings\<close> lists in
  result-entry order, then in within-entry order.
\<close>

definition flatten :: "'a list list \<Rightarrow> 'a list" where
  "flatten xss = concat xss"

text \<open>
  The idiom \<open>if x not in xs: xs.append(x)\<close>, and the list of the first occurrences of
  the elements of a list, in order: an element is kept when no equal element was kept
  before it.
\<close>

definition append_if_new :: "'a list \<Rightarrow> 'a \<Rightarrow> 'a list" where
  "append_if_new seen x = (if x \<in> set seen then seen else seen @ [x])"

definition first_occurrences :: "'a list \<Rightarrow> 'a list" where
  "first_occurrences xs = foldl append_if_new [] xs"

text \<open>
  Modelled from the spec: \<open>utils.list_helper.remove_duplicate_dicts\<close>, whose file is
  not part of the sources. The spec's Recording Merger deduplicates the release groups
  "by full structural equality, preserving first-occurrence order".
\<close>

definition remove_duplicate_dicts :: "'a list \<Rightarrow> 'a list" where
  "remove_duplicate_dicts dicts = first_occurrences dicts"

text \<open>Sequencing a list of results that may fail: the first error wins.\<close>

fun collect :: "(error + 'a) list \<Rightarrow> error + 'a list" where
  "collect [] = Inr []"
| "collect (x # xs) =
     (case x of Inl e \<Rightarrow> Inl e
      | Inr v \<Rightarrow> (case collect xs of Inl e \<Rightarrow> Inl e | Inr vs \<Rightarrow> Inr (v # vs)))"

section \<open>Artist name joiner\<close>

definition join_artist_names :: "artist list \<Rightarrow> string" where
  "join_artist_names artists = (let names = map a_name artists in str_join ''; '' names)"

section \<open>Recording merger\<close>

text \<open>
  \<open>artist.setdefault("id", "")\<close>: the value of the key \<open>id\<close> after the call, and the
  artist dictionary after the call.
\<close>

definition setdefault_id :: "artist \<Rightarrow> string \<times> artist" where
  "setdefault_id a =
     (case a_id a of None \<Rightarrow> ('''', a\<lparr>a_id := Some ''''\<rparr>) | Some i \<Rightarrow> (i, a))"

text \<open>The two local dictionaries of \<open>_merge_matching_recordings\<close>.\<close>

record merge_state =
  grouped_by_title_and_artist :: "releasegroup list dict dict"
  artists_by_title_and_artist :: "artist list dict dict"

text \<open>
  The body of the loop over the recordings, in three parts. Lines 226 to 228: a title
  seen for the first time gets an empty inner dictionary in both dictionaries.
\<close>

definition init_title :: "string \<Rightarrow> merge_state \<Rightarrow> merge_state" where
  "init_title title st =
     (if \<not> contains title (grouped_by_title_and_artist st)
      then \<lparr>grouped_by_title_and_artist = setitem title [] (grouped_by_title_and_artist st),
            artists_by_title_and_artist = setitem title [] (artists_by_title_and_artist st)\<rparr>
      else st)"

text \<open>
  Lines 229 to 231: an artist key seen for the first time under the title gets an empty
  list of release groups, and the artists of this recording.
\<close>

definition init_artist_id ::
  "string \<Rightarrow> string \<Rightarrow> artist list \<Rightarrow> merge_state \<Rightarrow> error + merge_state" where
  "init_artist_id title artist_id artists st =
     (case getitem (grouped_by_title_and_artist st) title of
        Inl e \<Rightarrow> Inl e
      | Inr entries \<Rightarrow>
          if \<not> contains artist_id entries
          then (case setitem2 title artist_id [] (grouped_by_title_and_artist st) of
                  Inl e \<Rightarrow> Inl e
                | Inr g \<Rightarrow>
               (case setitem2 title artist_id artists (artists_by_title_and_artist st) of
                  Inl e \<Rightarrow> Inl e
                | Inr a \<Rightarrow> Inr \<lparr>grouped_by_title_and_artist = g,
                                artists_by_title_and_artist = a\<rparr>))
          else Inr st)"

text \<open>
  Lines 232 to 234: the release groups of the recording are appended to the bucket. The
  right-hand side is evaluated first, and \<open>recording["releasegroups"]\<close> raises
  \<open>KeyError\<close> when the key is absent.
\<close>

definition add_releasegroups ::
  "string \<Rightarrow> string \<Rightarrow> recording \<Rightarrow> merge_state \<Rightarrow> error + merge_state" where
  "add_releasegroups title artist_id recording st =
     (case getitem2 (grouped_by_title_and_artist st) title artist_id of
        Inl e \<Rightarrow> Inl e
      | Inr old \<Rightarrow>
     (case rec_releasegroups recording of
        None \<Rightarrow> Inl (KeyError ''releasegroups'')
      | Some releasegroups \<Rightarrow>
     (case setitem2 title artist_id (old @ releasegroups) (grouped_by_title_and_artist st) of
        Inl e \<Rightarrow> Inl e
      | Inr g \<Rightarrow> Inr (st\<lparr>grouped_by_title_and_artist := g\<rparr>))))"

text \<open>
  One iteration. The first component is the recording after the iteration
  (\<open>setdefault\<close> writes into its artists), the second the dictionaries after it, or the
  exception that ends the loop.
\<close>

definition merge_step :: "merge_state \<Rightarrow> recording \<Rightarrow> recording \<times> (error + merge_state)" where
  "merge_step st recording =
     (case rec_title recording of
        None \<Rightarrow> (recording, Inr st)
      | Some title \<Rightarrow>
     (case rec_artists recording of
        None \<Rightarrow> (recording, Inr st)
      | Some artists \<Rightarrow>
          let artist_id = str_join '','' (map (fst \<circ> setdefault_id) artists);
              artists' = map (snd \<circ> setdefault_id) artists;
              recording' = recording\<lparr>rec_artists := Some artists'\<rparr>
          in (recording',
              case init_artist_id title artist_id artists' (init_title title st) of
                Inl e \<Rightarrow> Inl e
              | Inr st' \<Rightarrow> add_releasegroups title artist_id recording' st')))"

text \<open>
  The loop. An exception leaves the recordings that were not reached as they are; the
  ones already visited keep what \<open>setdefault\<close> wrote.
\<close>

fun merge_loop :: "merge_state \<Rightarrow> recording list \<Rightarrow> recording list \<times> (error + merge_state)" where
  "merge_loop st [] = ([], Inr st)"
| "merge_loop st (recording # rest) =
     (case merge_step st recording of
        (recording', Inl e) \<Rightarrow> (recording' # rest, Inl e)
      | (recording', Inr st') \<Rightarrow>
          (case merge_loop st' rest of (rest', res) \<Rightarrow> (recording' # rest', res)))"

text \<open>The list comprehension that builds the merged recordings.\<close>

definition merged_recording ::
  "artist list dict dict \<Rightarrow> string \<Rightarrow> string \<Rightarrow> releasegroup list \<Rightarrow> error + recording" where
  "merged_recording artists_by title artist_id releasegroups =
     (case getitem2 artists_by title artist_id of
        Inl e \<Rightarrow> Inl e
      | Inr artists \<Rightarrow>
          Inr \<lparr>rec_id = None, rec_title = Some title, rec_artists = Some artists,
               rec_releasegroups = Some (filter_out_compilations_from_releasegroups
                 (remove_duplicate_dicts releasegroups))\<rparr>)"

definition merged_recordings :: "merge_state \<Rightarrow> error + recording list" where
  "merged_recordings st =
     collect (concat (map (\<lambda>(title, entries).
        map (\<lambda>(artist_id, releasegroups).
          merged_recording (artists_by_title_and_artist st) title artist_id releasegroups)
          entries) (grouped_by_title_and_artist st)))"

text \<open>
  \<open>_merge_matching_recordings\<close>: the recordings after the call, and the merged recordings
  or the exception.
\<close>

definition merge_matching_recordings ::
  "recording list \<Rightarrow> recording list \<times> (error + recording list)" where
  "merge_matching_recordings recordings =
     (case merge_loop \<lparr>grouped_by_title_and_artist = [], artists_by_title_and_artist = []\<rparr>
             recordings of
        (recordings_after, Inl e) \<Rightarrow> (recordings_after, Inl e)
      | (recordings_after, Inr st) \<Rightarrow> (recordings_after, merged_recordings st))"

section \<open>Recording extractor\<close>

text \<open>
  The flat list holds the recording objects of the result entries themselves, so what the
  merger writes into them shows in the entries: \<open>write_back\<close> hands the recordings of
  the flat list back to the entries they came from.
\<close>

fun write_back :: "result_entry list \<Rightarrow> recording list \<Rightarrow> result_entry list" where
  "write_back [] flat = []"
| "write_back (result # rest) flat =
     (case entry_recordings result of
        None \<Rightarrow> result # write_back rest flat
      | Some rs \<Rightarrow> result\<lparr>entry_recordings := Some (take (length rs) flat)\<rparr>
                  # write_back rest (drop (length rs) flat))"

definition all_recordings :: "result_entry list \<Rightarrow> recording list" where
  "all_recordings results = flatten (List.map_filter entry_recordings results)"

definition extract_recordings ::
  "result_entry list \<Rightarrow> result_entry list \<times> (error + recording list)" where
  "extract_recordings results =
     (case merge_matching_recordings (all_recordings results) of
        (recordings_after, res) \<Rightarrow> (write_back results recordings_after, res))"

section \<open>Result builder\<close>

definition get_result_for_releasegroup ::
  "releasegroup \<Rightarrow> string \<Rightarrow> string \<Rightarrow> track_metadata" where
  "get_result_for_releasegroup releasegroup artist_name title =
     (let album_artist_name =
            (case rg_artists releasegroup of
               Some artists \<Rightarrow> Some (join_artist_names artists)
             | None \<Rightarrow> None);
          album_title =
            (case rg_title releasegroup of
               Some t \<Rightarrow> Some t
             | None \<Rightarrow> (case rg_name releasegroup of Some n \<Rightarrow> Some n | None \<Rightarrow> None))
      in \<lparr>tm_artist = artist_name, tm_title = title, tm_album = album_title,
           tm_albumartist = album_artist_name\<rparr>)"

text \<open>
  The loop of \<open>_get_results_for_recordings\<close> over the global list
  \<open>titles_identified_by_acoustid\<close> and the local list \<open>results\<close>. The global list
  keeps what was appended when an exception ends the loop.
\<close>

fun get_results_loop ::
  "string list \<Rightarrow> track_metadata list \<Rightarrow> recording list
     \<Rightarrow> string list \<times> (error + track_metadata list)" where
  "get_results_loop titles_identified_by_acoustid results [] =
     (titles_identified_by_acoustid, Inr results)"
| "get_results_loop titles_identified_by_acoustid results (recording # rest) =
     (case rec_artists recording of
        None \<Rightarrow> get_results_loop titles_identified_by_acoustid results rest
      | Some artists \<Rightarrow>
     (case rec_title recording of
        None \<Rightarrow> get_results_loop titles_identified_by_acoustid results rest
      | Some title \<Rightarrow>
          let artist_name = join_artist_names artists;
              titles_identified_key = title @ ''_'' @ artist_name;
              titles_identified = (if titles_identified_key \<notin> set titles_identified_by_acoustid
                    then titles_identified_by_acoustid @ [titles_identified_key]
                    else titles_identified_by_acoustid)
          in (case rec_releasegroups recording of
                None \<Rightarrow> (titles_identified, Inl (KeyError ''releasegroups''))
              | Some releasegroups \<Rightarrow>
                  get_results_loop titles_identified
                    (results @ map (\<lambda>releasegroup.
                        get_result_for_releasegroup releasegroup artist_name title)
                      releasegroups)
                    rest)))"

definition get_results_for_recordings ::
  "string list \<Rightarrow> recording list \<Rightarrow> string list \<times> (error + track_metadata list)" where
  "get_results_for_recordings titles_identified_by_acoustid recordings =
     get_results_loop titles_identified_by_acoustid [] recordings"

section \<open>Response validator and the whole lookup\<close>

text \<open>
  \<open>_parse_lookup_result\<close>. The state is the response (the merger writes into it) and the
  global list \<open>titles_identified_by_acoustid\<close>; the result is the returned list or the
  raised exception.
\<close>

definition parse_lookup_result ::
  "lookup_response \<Rightarrow> string list
     \<Rightarrow> (lookup_response \<times> string list) \<times> (error + track_metadata list)" where
  "parse_lookup_result data titles_identified_by_acoustid =
     (if resp_status data \<noteq> ''ok''
      then ((data, titles_identified_by_acoustid),
            Inl (WebServiceError (''status: '' @ resp_status data)))
      else case resp_results data of
        None \<Rightarrow> ((data, titles_identified_by_acoustid),
                 Inl (WebServiceError ''results not included''))
      | Some results \<Rightarrow>
         (case extract_recordings results of
            (results_after, Inl e) \<Rightarrow>
              ((data\<lparr>resp_results := Some results_after\<rparr>, titles_identified_by_acoustid), Inl e)
          | (results_after, Inr recordings) \<Rightarrow>
             (case get_results_for_recordings titles_identified_by_acoustid recordings of
                (titles_identified, res) \<Rightarrow>
                  ((data\<lparr>resp_results := Some results_after\<rparr>, titles_identified), res))))"

section \<open>Reference definitions for the statements\<close>

text \<open>
  The merge key of a recording, as the spec words it: the title and the comma-joined
  artist ids, an absent id counting as the empty string. A recording without a title or
  without artists has no key.
\<close>

definition artist_key :: "artist list \<Rightarrow> string" where
  "artist_key artists = str_join '','' (map (fst \<circ> setdefault_id) artists)"

definition merge_key :: "recording \<Rightarrow> (string \<times> string) option" where
  "merge_key r =
     (case rec_title r of None \<Rightarrow> None
      | Some t \<Rightarrow> (case rec_artists r of None \<Rightarrow> None | Some as \<Rightarrow> Some (t, artist_key as)))"

definition complete :: "recording \<Rightarrow> bool" where
  "complete r = (rec_title r \<noteq> None \<and> rec_artists r \<noteq> None)"

text \<open>
  A recording after the merger has visited it: when it has a title and artists, every
  artist without an \<open>id\<close> has received the id \<open>""\<close>.
\<close>

definition setdefault_recording :: "recording \<Rightarrow> recording" where
  "setdefault_recording r =
     (case rec_title r of None \<Rightarrow> r
      | Some t \<Rightarrow> (case rec_artists r of None \<Rightarrow> r
          | Some as \<Rightarrow> r\<lparr>rec_artists := Some (map (snd \<circ> setdefault_id) as)\<rparr>))"

text \<open>
  The input contract of the spec's section 6 on \<open>releasegroups\<close>: a recording with a
  title and artists has the key \<open>releasegroups\<close>.
\<close>

definition input_contract :: "recording list \<Rightarrow> bool" where
  "input_contract recs = (\<forall>r \<in> set recs. merge_key r \<noteq> None \<longrightarrow> rec_releasegroups r \<noteq> None)"

text \<open>
  How many recordings the loop of the merger reaches: all of them, or the ones up to and
  including the first recording that has a title and artists and no \<open>releasegroups\<close>.
\<close>

fun visited :: "recording list \<Rightarrow> nat" where
  "visited [] = 0"
| "visited (r # rs) =
     (if merge_key r \<noteq> None \<and> rec_releasegroups r = None then 1 else 1 + visited rs)"

text \<open>
  The spec's mapping. Its first level holds the titles in first-insertion order, its
  second level, under a title, the artist keys in first-insertion order. A bucket
  accumulates the release groups of its recordings in encounter order, and the artists of
  the first of them.
\<close>

definition first_titles :: "recording list \<Rightarrow> string list" where
  "first_titles recs = first_occurrences (map fst (List.map_filter merge_key recs))"

definition first_keys :: "recording list \<Rightarrow> string \<Rightarrow> string list" where
  "first_keys recs t =
     first_occurrences (map snd (filter (\<lambda>p. fst p = t) (List.map_filter merge_key recs)))"

definition bucket :: "recording list \<Rightarrow> string \<Rightarrow> string \<Rightarrow> recording list" where
  "bucket recs t k = filter (\<lambda>r. merge_key r = Some (t, k)) recs"

definition releasegroups_of :: "recording \<Rightarrow> releasegroup list" where
  "releasegroups_of r = (case rec_releasegroups r of None \<Rightarrow> [] | Some gs \<Rightarrow> gs)"

definition bucket_releasegroups :: "recording list \<Rightarrow> string \<Rightarrow> string \<Rightarrow> releasegroup list" where
  "bucket_releasegroups recs t k = concat (map releasegroups_of (bucket recs t k))"

definition bucket_artists :: "recording list \<Rightarrow> string \<Rightarrow> string \<Rightarrow> artist list" where
  "bucket_artists recs t k =
     (case bucket recs t k of [] \<Rightarrow> []
      | r # _ \<Rightarrow> (case rec_artists (setdefault_recording r) of None \<Rightarrow> [] | Some as \<Rightarrow> as))"

text \<open>Title-major, then artist-key-minor.\<close>

definition bucket_order :: "recording list \<Rightarrow> (string \<times> string) list" where
  "bucket_order recs =
     concat (map (\<lambda>t. map (\<lambda>k. (t, k)) (first_keys recs t)) (first_titles recs))"

text \<open>
  A merged recording as the merger's list comprehension builds it, from its title, artists
  and release groups; and the merged recording of a bucket.
\<close>

definition merged :: "string \<times> artist list \<times> releasegroup list \<Rightarrow> recording" where
  "merged m = (case m of (t, as, gs) \<Rightarrow>
     \<lparr>rec_id = None, rec_title = Some t, rec_artists = Some as, rec_releasegroups = Some gs\<rparr>)"

definition bucket_triple ::
  "recording list \<Rightarrow> string \<times> string \<Rightarrow> string \<times> artist list \<times> releasegroup list" where
  "bucket_triple recs p =
     (fst p, bucket_artists recs (fst p) (snd p),
      filter_out_compilations_from_releasegroups
        (remove_duplicate_dicts (bucket_releasegroups recs (fst p) (snd p))))"

definition merged_bucket :: "recording list \<Rightarrow> string \<times> string \<Rightarrow> recording" where
  "merged_bucket recs p = merged (bucket_triple recs p)"

text \<open>
  What the result builder does with one merged recording, as the spec words it: the key it
  records in the registry, and one track per release group.
\<close>

definition registry_key :: "string \<times> artist list \<times> releasegroup list \<Rightarrow> string" where
  "registry_key m = (case m of (t, as, gs) \<Rightarrow> t @ ''_'' @ str_join ''; '' (map a_name as))"

definition expand :: "string \<times> artist list \<times> releasegroup list \<Rightarrow> track_metadata list" where
  "expand m = (case m of (t, as, gs) \<Rightarrow>
     map (\<lambda>g. \<lparr>tm_artist = str_join ''; '' (map a_name as), tm_title = t,
               tm_album = (case rg_title g of Some a \<Rightarrow> Some a | None \<Rightarrow> rg_name g),
               tm_albumartist = (case rg_artists g of
                  Some bs \<Rightarrow> Some (str_join ''; '' (map a_name bs)) | None \<Rightarrow> None)\<rparr>) gs)"

text \<open>The recordings of a result entry, and a change to them.\<close>

definition recordings_of :: "result_entry \<Rightarrow> recording list" where
  "recordings_of e = (case entry_recordings e of None \<Rightarrow> [] | Some rs \<Rightarrow> rs)"

definition map_entry :: "(recording list \<Rightarrow> recording list) \<Rightarrow> result_entry \<Rightarrow> result_entry" where
  "map_entry f e =
     (case entry_recordings e of None \<Rightarrow> e | Some rs \<Rightarrow> e\<lparr>entry_recordings := Some (f rs)\<rparr>)"

text \<open>
  A dictionary given by its keys and the value under each key, one level and two levels
  deep, and the two dictionaries of the merger after the recordings \<open>recs\<close>.
\<close>

definition graph :: "string list \<Rightarrow> (string \<Rightarrow> 'v) \<Rightarrow> 'v dict" where
  "graph ks f = map (\<lambda>k. (k, f k)) ks"

definition nested ::
  "string list \<Rightarrow> (string \<Rightarrow> string list) \<Rightarrow> (string \<Rightarrow> string \<Rightarrow> 'v) \<Rightarrow> 'v dict dict" where
  "nested T K V = graph T (\<lambda>t. graph (K t) (\<lambda>k. V t k))"

definition state_after :: "recording list \<Rightarrow> merge_state" where
  "state_after recs =
     \<lparr>grouped_by_title_and_artist =
        graph (first_titles recs)
          (\<lambda>t. graph (first_keys recs t) (\<lambda>k. bucket_releasegroups recs t k)),
      artists_by_title_and_artist =
        graph (first_titles recs)
          (\<lambda>t. graph (first_keys recs t) (\<lambda>k. bucket_artists recs t k))\<rparr>"

section \<open>Example data\<close>

text \<open>Release groups, recordings, result entries and a response for the closed instances.\<close>

definition compilation :: releasegroup where
  "compilation = \<lparr>rg_id = ''g1'', rg_title = Some ''Hits'', rg_name = None, rg_artists = None,
                  rg_secondarytypes = Some [''Compilation'']\<rparr>"

definition album_group :: releasegroup where
  "album_group = \<lparr>rg_id = ''g2'', rg_title = Some ''Album'', rg_name = None, rg_artists = None,
                  rg_secondarytypes = None\<rparr>"

definition example_recording :: "string \<Rightarrow> string \<Rightarrow> releasegroup list \<Rightarrow> recording" where
  "example_recording t i gs =
     \<lparr>rec_id = None, rec_title = Some t,
      rec_artists = Some [\<lparr>a_id = Some i, a_name = ''N''\<rparr>], rec_releasegroups = Some gs\<rparr>"

text \<open>A recording whose artist has no \<open>id\<close>.\<close>

definition anonymous_recording :: "string \<Rightarrow> string \<Rightarrow> releasegroup list \<Rightarrow> recording" where
  "anonymous_recording t n gs =
     \<lparr>rec_id = Some ''r'', rec_title = Some t,
      rec_artists = Some [\<lparr>a_id = None, a_name = n\<rparr>], rec_releasegroups = Some gs\<rparr>"

text \<open>A recording without \<open>title\<close>, and one without \<open>releasegroups\<close>.\<close>

definition untitled_recording :: recording where
  "untitled_recording =
     \<lparr>rec_id = Some ''u'', rec_title = None,
      rec_artists = Some [\<lparr>a_id = None, a_name = ''N''\<rparr>], rec_releasegroups = None\<rparr>"

definition bare_recording :: recording where
  "bare_recording =
     \<lparr>rec_id = None, rec_title = Some ''Foo'',
      rec_artists = Some [\<lparr>a_id = None, a_name = ''N''\<rparr>], rec_releasegroups = None\<rparr>"

text \<open>Three recordings whose titles interleave.\<close>

definition interleaved :: "recording list" where
  "interleaved = [example_recording ''A'' ''1'' [], example_recording ''B'' ''1'' [],
                  example_recording ''A'' ''2'' []]"

definition entry :: "string \<Rightarrow> recording list \<Rightarrow> result_entry" where
  "entry i rs = \<lparr>entry_id = i, entry_recordings = Some rs\<rparr>"

definition response :: "result_entry list \<Rightarrow> lookup_response" where
  "response es = \<lparr>resp_status = ''ok'', resp_results = Some es\<rparr>"

definition empty_state :: merge_state where
  "empty_state = \<lparr>grouped_by_title_and_artist = [], artists_by_title_and_artist = []\<rparr>"

section \<open>Dictionaries as graphs of functions\<close>

text \<open>
  A dictionary with distinct keys is the graph of a function over the list of its keys.
  In this form a lookup reads the function, and an assignment updates the function and
  appends the key when it is new.
\<close>

lemma graph_Nil [simp]: "graph [] f = []"
  by (simp add: graph_def)

lemma map_of_graph: "map_of (graph ks f) k = (if k \<in> set ks then Some (f k) else None)"
  by (induction ks) (auto simp: graph_def)

lemma contains_graph [simp]: "contains k (graph ks f) = (k \<in> set ks)"
  by (simp add: contains_def map_of_graph)

lemma getitem_graph: "getitem (graph ks f) k = (if k \<in> set ks then Inr (f k) else Inl (KeyError k))"
  by (simp add: getitem_def map_of_graph)

lemma graph_cong: "(\<And>k. k \<in> set ks \<Longrightarrow> f k = g k) \<Longrightarrow> graph ks f = graph ks g"
  by (simp add: graph_def)

lemma append_if_new_Cons:
  "append_if_new (x # xs) k = (if x = k then x # xs else x # append_if_new xs k)"
  by (simp add: append_if_new_def)

lemma setitem_graph:
  "distinct ks \<Longrightarrow> setitem k v (graph ks f) = graph (append_if_new ks k) (f(k := v))"
proof (induction ks)
  case Nil
  then show ?case by (simp add: graph_def append_if_new_def)
next
  case (Cons x xs)
  show ?case
  proof (cases "x = k")
    case True
    with Cons.prems have "k \<notin> set xs" by simp
    then have "graph xs f = graph xs (f(k := v))" by (intro graph_cong) auto
    with True show ?thesis by (simp add: graph_def append_if_new_Cons)
  next
    case False
    with Cons show ?thesis by (simp add: graph_def append_if_new_Cons)
  qed
qed

lemma set_append_if_new [simp]: "set (append_if_new xs k) = insert k (set xs)"
  by (auto simp: append_if_new_def)

lemma distinct_append_if_new [simp]: "distinct (append_if_new xs k) = distinct xs"
  by (auto simp: append_if_new_def)

lemma first_occurrences_snoc:
  "first_occurrences (xs @ [x]) = append_if_new (first_occurrences xs) x"
  by (simp add: first_occurrences_def)

lemma first_occurrences_Nil [simp]: "first_occurrences [] = []"
  by (simp add: first_occurrences_def)

lemma set_first_occurrences [simp]: "set (first_occurrences xs) = set xs"
  by (induction xs rule: rev_induct) (simp_all add: first_occurrences_snoc)

lemma distinct_first_occurrences [simp]: "distinct (first_occurrences xs)"
  by (induction xs rule: rev_induct) (simp_all add: first_occurrences_snoc)

text \<open>
  Read from the front, the first occurrences are the head followed by the first
  occurrences of the other elements of the tail.
\<close>

lemma first_occurrences_Cons:
  "first_occurrences (x # xs) = x # first_occurrences (filter (\<lambda>y. y \<noteq> x) xs)"
proof (induction xs rule: rev_induct)
  case Nil
  then show ?case by (simp add: first_occurrences_def append_if_new_def)
next
  case (snoc y ys)
  have "first_occurrences (x # ys @ [y]) = append_if_new (first_occurrences (x # ys)) y"
    using first_occurrences_snoc [of "x # ys" y] by simp
  with snoc show ?case
    by (simp add: first_occurrences_snoc append_if_new_Cons)
qed

lemma collect_map_Inr [simp]: "collect (map Inr xs) = Inr xs"
  by (induction xs) simp_all

section \<open>The spec's mapping after one more recording\<close>

lemma map_filter_snoc: "List.map_filter f (xs @ [x]) = List.map_filter f xs @ (case f x of None \<Rightarrow> [] | Some y \<Rightarrow> [y])"
  by (simp add: List.map_filter_def split: option.splits)

lemma first_titles_snoc:
  "first_titles (xs @ [x]) =
     (case merge_key x of None \<Rightarrow> first_titles xs | Some p \<Rightarrow> append_if_new (first_titles xs) (fst p))"
  by (simp add: first_titles_def map_filter_snoc first_occurrences_snoc split: option.splits)

lemma first_keys_snoc:
  "first_keys (xs @ [x]) t =
     (case merge_key x of None \<Rightarrow> first_keys xs t
      | Some p \<Rightarrow> if fst p = t then append_if_new (first_keys xs t) (snd p) else first_keys xs t)"
  by (simp add: first_keys_def map_filter_snoc first_occurrences_snoc split: option.splits)

lemma bucket_snoc:
  "bucket (xs @ [x]) t k = (if merge_key x = Some (t, k) then bucket xs t k @ [x] else bucket xs t k)"
  by (simp add: bucket_def)

lemma first_titles_Nil [simp]: "first_titles [] = []"
  by (simp add: first_titles_def List.map_filter_def)

lemma first_keys_Nil [simp]: "first_keys [] t = []"
  by (simp add: first_keys_def List.map_filter_def)

lemma in_first_titles:
  "t \<in> set (first_titles recs) \<longleftrightarrow> (\<exists>r \<in> set recs. \<exists>k. merge_key r = Some (t, k))"
  by (induction recs rule: rev_induct) (auto simp: first_titles_snoc split: option.splits)

lemma in_first_keys:
  "k \<in> set (first_keys recs t) \<longleftrightarrow> (\<exists>r \<in> set recs. merge_key r = Some (t, k))"
  by (induction recs rule: rev_induct) (auto simp: first_keys_snoc split: option.splits)

lemma distinct_first_titles [simp]: "distinct (first_titles recs)"
  by (simp add: first_titles_def)

lemma distinct_first_keys [simp]: "distinct (first_keys recs t)"
  by (simp add: first_keys_def)

lemma bucket_empty_iff: "bucket recs t k = [] \<longleftrightarrow> k \<notin> set (first_keys recs t)"
  by (auto simp: bucket_def in_first_keys filter_empty_conv)

lemma first_keys_empty: "t \<notin> set (first_titles recs) \<Longrightarrow> first_keys recs t = []"
proof -
  assume "t \<notin> set (first_titles recs)"
  then have "\<forall>k. k \<notin> set (first_keys recs t)"
    by (auto simp: in_first_titles in_first_keys)
  then show ?thesis by (cases "first_keys recs t") auto
qed

lemma bucket_releasegroups_snoc:
  "bucket_releasegroups (xs @ [x]) t k =
     (if merge_key x = Some (t, k) then bucket_releasegroups xs t k @ releasegroups_of x
      else bucket_releasegroups xs t k)"
  by (simp add: bucket_releasegroups_def bucket_snoc)

lemma bucket_artists_snoc:
  "bucket_artists (xs @ [x]) t k =
     (if merge_key x = Some (t, k) \<and> k \<notin> set (first_keys xs t)
      then (case rec_artists (setdefault_recording x) of None \<Rightarrow> [] | Some as \<Rightarrow> as)
      else bucket_artists xs t k)"
  using bucket_empty_iff [of xs t k]
  by (auto simp: bucket_artists_def bucket_snoc split: list.splits)

lemma merge_loop_snoc:
  "merge_loop st (xs @ [x]) =
     (case merge_loop st xs of
        (xs', Inl e) \<Rightarrow> (xs' @ [x], Inl e)
      | (xs', Inr st') \<Rightarrow> (case merge_step st' x of (x', res) \<Rightarrow> (xs' @ [x'], res)))"
  by (induction xs arbitrary: st) (auto split: prod.splits sum.splits)

lemma merge_step_skip:
  "merge_key x = None \<Longrightarrow> merge_step st x = (x, Inr st)"
  by (auto simp: merge_key_def merge_step_def split: option.splits)

lemma state_after_skip:
  "merge_key x = None \<Longrightarrow> state_after (xs @ [x]) = state_after xs"
  by (simp add: state_after_def first_titles_snoc first_keys_snoc bucket_releasegroups_snoc bucket_artists_snoc)

section \<open>The loop body on a two-level dictionary\<close>

lemma append_if_new_mem: "k \<in> set ks \<Longrightarrow> append_if_new ks k = ks"
  by (simp add: append_if_new_def)

lemma contains_nested [simp]: "contains t (nested T K V) = (t \<in> set T)"
  by (simp add: nested_def)

lemma getitem_nested:
  "t \<in> set T \<Longrightarrow> getitem (nested T K V) t = Inr (graph (K t) (\<lambda>k. V t k))"
  by (simp add: nested_def getitem_graph)

lemma getitem2_nested:
  "t \<in> set T \<Longrightarrow> k \<in> set (K t) \<Longrightarrow> getitem2 (nested T K V) t k = Inr (V t k)"
  by (simp add: getitem2_def getitem_nested getitem_graph)

lemma setitem_nested_new:
  assumes "distinct T" and "K t = []"
  shows "setitem t [] (nested T K V) = nested (append_if_new T t) K V"
proof -
  have "setitem t [] (nested T K V)
      = graph (append_if_new T t) ((\<lambda>t. graph (K t) (\<lambda>k. V t k))(t := []))"
    unfolding nested_def using assms(1) by (rule setitem_graph)
  also have "\<dots> = nested (append_if_new T t) K V"
    unfolding nested_def using assms(2) by (intro graph_cong) auto
  finally show ?thesis .
qed

lemma setitem2_nested:
  assumes "distinct T" and "distinct (K t)" and "t \<in> set T"
  shows "setitem2 t k v (nested T K V) =
           Inr (nested T (K(t := append_if_new (K t) k)) (V(t := (V t)(k := v))))"
proof -
  have "setitem t (setitem k v (graph (K t) (\<lambda>k. V t k))) (nested T K V)
      = graph (append_if_new T t)
          ((\<lambda>t. graph (K t) (\<lambda>k. V t k))
             (t := graph (append_if_new (K t) k) ((\<lambda>k. V t k)(k := v))))"
    unfolding nested_def using assms(1,2) by (simp add: setitem_graph)
  also have "\<dots> = nested T (K(t := append_if_new (K t) k)) (V(t := (V t)(k := v)))"
    unfolding nested_def using assms(3)
    by (auto simp: append_if_new_mem intro!: graph_cong)
  finally show ?thesis
    using assms(3) by (simp add: setitem2_def getitem_nested)
qed

lemma append_if_new_idem [simp]: "append_if_new (append_if_new ks k) k = append_if_new ks k"
  by (simp add: append_if_new_def)

lemma init_title_nested:
  assumes dT: "distinct T" and KT: "\<And>t. t \<notin> set T \<Longrightarrow> K t = []"
  shows "init_title t \<lparr>grouped_by_title_and_artist = nested T K R,
                        artists_by_title_and_artist = nested T K A\<rparr> =
         \<lparr>grouped_by_title_and_artist = nested (append_if_new T t) K R,
          artists_by_title_and_artist = nested (append_if_new T t) K A\<rparr>"
proof (cases "t \<in> set T")
  case True
  then show ?thesis by (simp add: init_title_def append_if_new_mem)
next
  case False
  then have "K t = []" by (rule KT)
  with dT have "setitem t [] (nested T K R) = nested (append_if_new T t) K R"
    and "setitem t [] (nested T K A) = nested (append_if_new T t) K A"
    by (rule setitem_nested_new)+
  with False show ?thesis by (simp add: init_title_def)
qed

lemma init_artist_id_nested:
  assumes dT: "distinct T" and dK: "distinct (K t)" and t: "t \<in> set T"
  shows "init_artist_id t k as \<lparr>grouped_by_title_and_artist = nested T K R,
                                artists_by_title_and_artist = nested T K A\<rparr> =
         Inr \<lparr>grouped_by_title_and_artist =
                nested T (K(t := append_if_new (K t) k))
                  (if k \<in> set (K t) then R else R(t := (R t)(k := []))),
              artists_by_title_and_artist =
                nested T (K(t := append_if_new (K t) k))
                  (if k \<in> set (K t) then A else A(t := (A t)(k := as)))\<rparr>"
proof (cases "k \<in> set (K t)")
  case True
  then have "K(t := append_if_new (K t) k) = K" by (simp add: append_if_new_mem)
  with True t show ?thesis
    by (simp add: init_artist_id_def getitem_nested)
next
  case False
  have "setitem2 t k [] (nested T K R) =
      Inr (nested T (K(t := append_if_new (K t) k)) (R(t := (R t)(k := []))))"
    using dT dK t by (rule setitem2_nested)
  moreover have "setitem2 t k as (nested T K A) =
      Inr (nested T (K(t := append_if_new (K t) k)) (A(t := (A t)(k := as))))"
    using dT dK t by (rule setitem2_nested)
  ultimately show ?thesis
    using False t by (simp add: init_artist_id_def getitem_nested)
qed

lemma add_releasegroups_nested:
  assumes dT: "distinct T" and dK: "distinct (K t)" and t: "t \<in> set T" and k: "k \<in> set (K t)"
  shows "add_releasegroups t k x \<lparr>grouped_by_title_and_artist = nested T K R,
                                  artists_by_title_and_artist = nested T K A\<rparr> =
         (case rec_releasegroups x of
            None \<Rightarrow> Inl (KeyError ''releasegroups'')
          | Some g \<Rightarrow>
              Inr \<lparr>grouped_by_title_and_artist = nested T K (R(t := (R t)(k := R t k @ g))),
                   artists_by_title_and_artist = nested T K A\<rparr>)"
proof -
  have "K(t := append_if_new (K t) k) = K" using k by (simp add: append_if_new_mem)
  moreover have "setitem2 t k v (nested T K R) =
      Inr (nested T (K(t := append_if_new (K t) k)) (R(t := (R t)(k := v))))" for v
    using dT dK t by (rule setitem2_nested)
  ultimately show ?thesis
    using t k
    by (simp add: add_releasegroups_def getitem2_nested split: option.splits)
qed

text \<open>
  One iteration on a recording with title \<open>t\<close> and artist key \<open>k\<close>, from
  dictionaries with the same keys on both levels: no subscript raises but
  \<open>recording["releasegroups"]\<close>, and the dictionaries get the title, the key under
  the title, the artists when the key is new, and the release groups at the end of the
  bucket.
\<close>

lemma merge_step_nested:
  assumes dT: "distinct T" and dK: "\<And>t. distinct (K t)"
    and KT: "\<And>t. t \<notin> set T \<Longrightarrow> K t = []"
    and RK: "\<And>t k. k \<notin> set (K t) \<Longrightarrow> R t k = []"
    and xt: "rec_title x = Some t" and xa: "rec_artists x = Some as"
    and k: "k = artist_key as"
  shows "merge_step \<lparr>grouped_by_title_and_artist = nested T K R,
                     artists_by_title_and_artist = nested T K A\<rparr> x =
     (x\<lparr>rec_artists := Some (map (snd \<circ> setdefault_id) as)\<rparr>,
      case rec_releasegroups x of
        None \<Rightarrow> Inl (KeyError ''releasegroups'')
      | Some g \<Rightarrow>
          Inr \<lparr>grouped_by_title_and_artist =
                 nested (append_if_new T t) (K(t := append_if_new (K t) k))
                   (R(t := (R t)(k := R t k @ g))),
               artists_by_title_and_artist =
                 nested (append_if_new T t) (K(t := append_if_new (K t) k))
                   (if k \<in> set (K t) then A
                    else A(t := (A t)(k := map (snd \<circ> setdefault_id) as)))\<rparr>)"
proof -
  let ?T = "append_if_new T t"
  let ?K = "K(t := append_if_new (K t) k)"
  let ?as = "map (snd \<circ> setdefault_id) as"
  let ?R = "if k \<in> set (K t) then R else R(t := (R t)(k := []))"
  have d': "distinct ?T" using dT by simp
  have t': "t \<in> set ?T" by simp
  have dK': "distinct (?K t)" using dK by simp
  have k': "k \<in> set (?K t)" by simp
  have R: "?R = R" using RK [of k t] by (auto simp: fun_eq_iff)
  have K: "?K(t := append_if_new (?K t) k) = ?K" by simp
  have 1: "init_title t \<lparr>grouped_by_title_and_artist = nested T K R,
                           artists_by_title_and_artist = nested T K A\<rparr> =
         \<lparr>grouped_by_title_and_artist = nested ?T K R,
          artists_by_title_and_artist = nested ?T K A\<rparr>"
    using dT KT by (rule init_title_nested)
  have 2: "init_artist_id t k ?as \<lparr>grouped_by_title_and_artist = nested ?T K R,
                                   artists_by_title_and_artist = nested ?T K A\<rparr> =
         Inr \<lparr>grouped_by_title_and_artist = nested ?T ?K R,
              artists_by_title_and_artist =
                nested ?T ?K (if k \<in> set (K t) then A else A(t := (A t)(k := ?as)))\<rparr>"
    using init_artist_id_nested [of ?T K t k ?as R A] d' dK [of t] t' R by simp
  have 3: "add_releasegroups t k y \<lparr>grouped_by_title_and_artist = nested ?T ?K R,
              artists_by_title_and_artist = nested ?T ?K A'\<rparr> =
         (case rec_releasegroups y of
            None \<Rightarrow> Inl (KeyError ''releasegroups'')
          | Some g \<Rightarrow>
              Inr \<lparr>grouped_by_title_and_artist = nested ?T ?K (R(t := (R t)(k := R t k @ g))),
                   artists_by_title_and_artist = nested ?T ?K A'\<rparr>)" for y A'
    using d' dK' t' k' by (rule add_releasegroups_nested)
  have ke: "str_join '','' (map (fst \<circ> setdefault_id) as) = k"
    using k by (simp add: artist_key_def)
  show ?thesis
    using xt xa
    by (simp add: merge_step_def Let_def ke 1 2 3 split: option.splits)
qed

section \<open>The merger computes the spec's mapping\<close>

lemma state_after_nested:
  "state_after recs =
     \<lparr>grouped_by_title_and_artist =
        nested (first_titles recs) (first_keys recs) (bucket_releasegroups recs),
      artists_by_title_and_artist =
        nested (first_titles recs) (first_keys recs) (bucket_artists recs)\<rparr>"
  by (simp add: state_after_def nested_def)

lemma state_after_Nil: "state_after [] =
    \<lparr>grouped_by_title_and_artist = [], artists_by_title_and_artist = []\<rparr>"
  by (simp add: state_after_def)

lemma bucket_releasegroups_empty:
  "k \<notin> set (first_keys recs t) \<Longrightarrow> bucket_releasegroups recs t k = []"
  using bucket_empty_iff [of recs t k] by (simp add: bucket_releasegroups_def)

lemma merge_key_SomeD:
  "merge_key x = Some (t, k) \<Longrightarrow>
     \<exists>as. rec_title x = Some t \<and> rec_artists x = Some as \<and> k = artist_key as"
  by (auto simp: merge_key_def split: option.splits)

lemma merge_step_state_after:
  assumes mk: "merge_key x = Some (t, k)"
  shows "merge_step (state_after xs) x =
     (setdefault_recording x,
      case rec_releasegroups x of
        None \<Rightarrow> Inl (KeyError ''releasegroups'')
      | Some g \<Rightarrow> Inr (state_after (xs @ [x])))"
proof -
  from mk obtain as where xt: "rec_title x = Some t" and xa: "rec_artists x = Some as"
    and k: "k = artist_key as"
    by (blast dest: merge_key_SomeD)
  let ?as = "map (snd \<circ> setdefault_id) as"
  have T: "first_titles (xs @ [x]) = append_if_new (first_titles xs) t"
    using mk by (simp add: first_titles_snoc)
  have K: "first_keys (xs @ [x]) = (first_keys xs)(t := append_if_new (first_keys xs t) k)"
    using mk by (simp add: fun_eq_iff first_keys_snoc)
  have R: "bucket_releasegroups (xs @ [x]) =
      (bucket_releasegroups xs)
        (t := (bucket_releasegroups xs t)(k := bucket_releasegroups xs t k @ g))"
    if "rec_releasegroups x = Some g" for g
    using mk that by (simp add: fun_eq_iff bucket_releasegroups_snoc releasegroups_of_def)
  have A: "bucket_artists (xs @ [x]) =
      (if k \<in> set (first_keys xs t) then bucket_artists xs
       else (bucket_artists xs)(t := (bucket_artists xs t)(k := ?as)))"
    using mk xt xa by (simp add: fun_eq_iff bucket_artists_snoc setdefault_recording_def)
  have x': "setdefault_recording x = x\<lparr>rec_artists := Some ?as\<rparr>"
    using xt xa by (simp add: setdefault_recording_def)
  have "merge_step (state_after xs) x =
     (x\<lparr>rec_artists := Some ?as\<rparr>,
      case rec_releasegroups x of
        None \<Rightarrow> Inl (KeyError ''releasegroups'')
      | Some g \<Rightarrow>
          Inr \<lparr>grouped_by_title_and_artist =
                 nested (append_if_new (first_titles xs) t)
                   ((first_keys xs)(t := append_if_new (first_keys xs t) k))
                   ((bucket_releasegroups xs)
                      (t := (bucket_releasegroups xs t)(k := bucket_releasegroups xs t k @ g))),
               artists_by_title_and_artist =
                 nested (append_if_new (first_titles xs) t)
                   ((first_keys xs)(t := append_if_new (first_keys xs t) k))
                   (if k \<in> set (first_keys xs t) then bucket_artists xs
                    else (bucket_artists xs)(t := (bucket_artists xs t)(k := ?as)))\<rparr>)"
    unfolding state_after_nested
    by (rule merge_step_nested)
       (simp_all add: first_keys_empty bucket_releasegroups_empty xt xa k)
  then show ?thesis
    by (simp add: x' state_after_nested [of "xs @ [x]"] T K R A split: option.splits)
qed

text \<open>
  The loop invariant: after the recordings \<open>recs\<close> the two dictionaries are the
  spec's mapping of \<open>recs\<close>, and each visited recording is as \<open>setdefault\<close> left it.
\<close>

lemma merge_loop_state_after:
  "input_contract recs \<Longrightarrow>
     merge_loop (state_after []) recs = (map setdefault_recording recs, Inr (state_after recs))"
proof (induction recs rule: rev_induct)
  case Nil
  then show ?case by simp
next
  case (snoc x xs)
  from snoc.prems have c: "input_contract xs"
    and x: "merge_key x \<noteq> None \<Longrightarrow> rec_releasegroups x \<noteq> None"
    by (simp_all add: input_contract_def)
  have IH: "merge_loop (state_after []) xs = (map setdefault_recording xs, Inr (state_after xs))"
    using snoc.IH c by simp
  show ?case
  proof (cases "merge_key x")
    case None
    then have "setdefault_recording x = x"
      by (auto simp: setdefault_recording_def merge_key_def split: option.splits)
    with None IH show ?thesis
      by (simp add: merge_loop_snoc merge_step_skip state_after_skip)
  next
    case (Some p)
    obtain t k where p: "p = (t, k)" by (cases p)
    with Some x obtain g where "rec_releasegroups x = Some g" by auto
    with Some p IH show ?thesis
      by (simp add: merge_loop_snoc merge_step_state_after)
  qed
qed

lemma map_graph: "map h (graph ks f) = map (\<lambda>k. h (k, f k)) ks"
  by (simp add: graph_def comp_def)

lemma merged_recording_state_after:
  assumes "t \<in> set (first_titles recs)" and "k \<in> set (first_keys recs t)"
  shows "merged_recording (artists_by_title_and_artist (state_after recs)) t k
           (bucket_releasegroups recs t k) = Inr (merged_bucket recs (t, k))"
  using assms
  by (simp add: merged_recording_def state_after_nested getitem2_nested merged_bucket_def
      merged_def bucket_triple_def)

lemma merged_recordings_state_after:
  "merged_recordings (state_after recs) = Inr (map (merged_bucket recs) (bucket_order recs))"
proof -
  have "concat (map (\<lambda>(title, entries).
        map (\<lambda>(artist_id, releasegroups).
          merged_recording (artists_by_title_and_artist (state_after recs))
            title artist_id releasegroups)
          entries) (grouped_by_title_and_artist (state_after recs)))
      = concat (map (\<lambda>t. map (\<lambda>k.
          merged_recording (artists_by_title_and_artist (state_after recs)) t k
            (bucket_releasegroups recs t k)) (first_keys recs t)) (first_titles recs))"
    by (simp add: state_after_def map_graph)
  also have "\<dots> = concat (map (\<lambda>t. map (\<lambda>k. Inr (merged_bucket recs (t, k)))
                       (first_keys recs t)) (first_titles recs))"
    by (intro arg_cong [where f = concat] map_cong refl)
       (simp add: merged_recording_state_after)
  also have "\<dots> = map Inr (map (merged_bucket recs) (bucket_order recs))"
    by (simp add: bucket_order_def map_concat comp_def)
  finally show ?thesis
    by (simp add: merged_recordings_def del: map_map)
qed

lemma merge_matching_recordings_contract:
  "input_contract recs \<Longrightarrow>
     merge_matching_recordings recs =
       (map setdefault_recording recs, Inr (map (merged_bucket recs) (bucket_order recs)))"
  using merge_loop_state_after [of recs]
  by (simp add: merge_matching_recordings_def state_after_Nil merged_recordings_state_after)

lemma merge_key_None_iff: "merge_key r = None \<longleftrightarrow> \<not> complete r"
  by (auto simp: merge_key_def complete_def split: option.splits)

lemma merge_loop_append:
  "merge_loop st (xs @ ys) =
     (case merge_loop st xs of
        (xs', Inl e) \<Rightarrow> (xs' @ ys, Inl e)
      | (xs', Inr st') \<Rightarrow> (case merge_loop st' ys of (ys', res) \<Rightarrow> (xs' @ ys', res)))"
  by (induction xs arbitrary: st) (auto split: prod.splits sum.splits)

lemma visited_contract: "input_contract recs \<Longrightarrow> visited recs = length recs"
  by (induction recs) (auto simp: input_contract_def)

lemma visited_violation:
  "input_contract xs \<Longrightarrow> merge_key x \<noteq> None \<Longrightarrow> rec_releasegroups x = None \<Longrightarrow>
     visited (xs @ x # ys) = Suc (length xs)"
  by (induction xs) (auto simp: input_contract_def)

lemma contract_violation_split:
  assumes "\<not> input_contract recs"
  obtains xs x ys where "recs = xs @ x # ys" and "input_contract xs"
    and "merge_key x \<noteq> None" and "rec_releasegroups x = None"
proof -
  from assms have "\<exists>r \<in> set recs. merge_key r \<noteq> None \<and> rec_releasegroups r = None"
    by (auto simp: input_contract_def)
  then obtain xs x ys where "recs = xs @ x # ys"
    and "merge_key x \<noteq> None \<and> rec_releasegroups x = None"
    and "\<forall>y \<in> set xs. \<not> (merge_key y \<noteq> None \<and> rec_releasegroups y = None)"
    using split_list_first_prop [of recs "\<lambda>r. merge_key r \<noteq> None \<and> rec_releasegroups r = None"]
    by auto
  then show thesis
    by (intro that [of xs x ys]) (auto simp: input_contract_def)
qed

lemma merge_loop_violation:
  assumes c: "input_contract xs" and k: "merge_key x \<noteq> None" and g: "rec_releasegroups x = None"
  shows "merge_loop (state_after []) (xs @ x # ys) =
      (map setdefault_recording xs @ setdefault_recording x # ys, Inl (KeyError ''releasegroups''))"
proof -
  from k obtain t a where "merge_key x = Some (t, a)" by (cases "merge_key x") auto
  then have "merge_step (state_after xs) x =
      (setdefault_recording x, Inl (KeyError ''releasegroups''))"
    using g by (simp add: merge_step_state_after)
  then show ?thesis
    using merge_loop_state_after [OF c] by (simp add: merge_loop_append)
qed

text \<open>
  The merger on any list of recordings: what it leaves in the list, and what it returns
  or raises.
\<close>

lemma merge_matching_recordings_general:
  "merge_matching_recordings recs =
     (map setdefault_recording (take (visited recs) recs) @ drop (visited recs) recs,
      if input_contract recs then Inr (map (merged_bucket recs) (bucket_order recs))
      else Inl (KeyError ''releasegroups''))"
proof (cases "input_contract recs")
  case True
  then show ?thesis
    by (simp add: merge_matching_recordings_contract visited_contract)
next
  case False
  then obtain xs x ys where recs: "recs = xs @ x # ys" and c: "input_contract xs"
    and k: "merge_key x \<noteq> None" and g: "rec_releasegroups x = None"
    by (rule contract_violation_split)
  have "visited recs = Suc (length xs)"
    unfolding recs using c k g by (rule visited_violation)
  moreover have "merge_loop (state_after []) recs =
      (map setdefault_recording xs @ setdefault_recording x # ys, Inl (KeyError ''releasegroups''))"
    unfolding recs using c k g by (rule merge_loop_violation)
  ultimately show ?thesis
    using False by (simp add: merge_matching_recordings_def state_after_Nil recs)
qed

section \<open>The buckets, the extractor and the builder\<close>

lemma setdefault_id_idem:
  "fst (setdefault_id (snd (setdefault_id a))) = fst (setdefault_id a)"
  by (simp add: setdefault_id_def split: option.splits)

lemma artist_key_setdefault:
  "artist_key (map (snd \<circ> setdefault_id) as) = artist_key as"
  by (simp add: artist_key_def comp_def setdefault_id_idem)

lemma merge_key_setdefault_recording [simp]:
  "merge_key (setdefault_recording r) = merge_key r"
  by (simp add: merge_key_def setdefault_recording_def artist_key_setdefault split: option.splits)

lemma bucket_first:
  assumes "k \<in> set (first_keys recs t)"
  obtains xs r ys where "recs = xs @ r # ys" and "merge_key r = Some (t, k)"
    and "\<forall>y \<in> set xs. merge_key y \<noteq> Some (t, k)" and "bucket recs t k = r # bucket ys t k"
proof -
  from assms have "\<exists>r \<in> set recs. merge_key r = Some (t, k)"
    by (simp add: in_first_keys)
  then obtain xs r ys where recs: "recs = xs @ r # ys" and r: "merge_key r = Some (t, k)"
    and xs: "\<forall>y \<in> set xs. merge_key y \<noteq> Some (t, k)"
    using split_list_first_prop [of recs "\<lambda>r. merge_key r = Some (t, k)"] by auto
  from xs have "filter (\<lambda>r. merge_key r = Some (t, k)) xs = []"
    by (simp add: filter_empty_conv)
  with recs r have "bucket recs t k = r # bucket ys t k"
    by (simp add: bucket_def)
  with recs r xs show thesis by (rule that)
qed

lemma bucket_artists_first:
  assumes "recs = xs @ r # ys" and "merge_key r = Some (t, k)"
    and "\<forall>y \<in> set xs. merge_key y \<noteq> Some (t, k)"
  shows "Some (bucket_artists recs t k) = rec_artists (setdefault_recording r)"
proof -
  from assms(3) have "filter (\<lambda>r. merge_key r = Some (t, k)) xs = []"
    by (simp add: filter_empty_conv)
  with assms(1,2) have "bucket recs t k = r # bucket ys t k"
    by (simp add: bucket_def)
  moreover from assms(2) have "rec_artists (setdefault_recording r) \<noteq> None"
    by (auto simp: setdefault_recording_def merge_key_def split: option.splits)
  ultimately show ?thesis
    by (auto simp: bucket_artists_def)
qed

lemma merge_key_merged_bucket:
  assumes "k \<in> set (first_keys recs t)"
  shows "merge_key (merged_bucket recs (t, k)) = Some (t, k)"
proof -
  from assms obtain xs r ys where recs: "recs = xs @ r # ys" and r: "merge_key r = Some (t, k)"
    and xs: "\<forall>y \<in> set xs. merge_key y \<noteq> Some (t, k)"
    by (rule bucket_first)
  then have a: "Some (bucket_artists recs t k) = rec_artists (setdefault_recording r)"
    by (rule bucket_artists_first)
  from r have "merge_key (setdefault_recording r) = Some (t, k)" by simp
  with a [symmetric] show ?thesis
    by (auto simp: merge_key_def merged_bucket_def merged_def bucket_triple_def
        split: option.splits)
qed

lemma in_bucket_order_pair:
  "(t, k) \<in> set (bucket_order recs) \<longleftrightarrow>
     t \<in> set (first_titles recs) \<and> k \<in> set (first_keys recs t)"
  by (auto simp: bucket_order_def)

lemma in_bucket_order:
  "p \<in> set (bucket_order recs) \<longleftrightarrow> (\<exists>r \<in> set recs. merge_key r = Some p)"
proof (cases p)
  case (Pair t k)
  have "k \<in> set (first_keys recs t) \<Longrightarrow> t \<in> set (first_titles recs)"
    by (auto simp: in_first_keys in_first_titles)
  then have "(t, k) \<in> set (bucket_order recs) \<longleftrightarrow> k \<in> set (first_keys recs t)"
    by (auto simp: in_bucket_order_pair)
  then show ?thesis
    unfolding Pair by (simp add: in_first_keys)
qed

lemma distinct_pairs:
  "distinct ts \<Longrightarrow> (\<And>t. distinct (K t)) \<Longrightarrow>
     distinct (concat (map (\<lambda>t. map (\<lambda>k. (t, k)) (K t)) ts))"
  by (induction ts) (auto simp: distinct_map inj_on_def)

lemma distinct_bucket_order: "distinct (bucket_order recs)"
  unfolding bucket_order_def by (rule distinct_pairs) simp_all

lemma bucket_order_keys:
  "p \<in> set (bucket_order recs) \<Longrightarrow> snd p \<in> set (first_keys recs (fst p))"
  by (auto simp: bucket_order_def)

lemma map_merge_key_merged:
  "map merge_key (map (merged_bucket recs) (bucket_order recs)) = map Some (bucket_order recs)"
proof -
  have "merge_key (merged_bucket recs p) = Some p" if "p \<in> set (bucket_order recs)" for p
    using merge_key_merged_bucket [of "snd p" recs "fst p"] bucket_order_keys [OF that]
    by simp
  then show ?thesis by simp
qed

lemma filter_eq_distinct:
  "distinct xs \<Longrightarrow> p \<in> set xs \<Longrightarrow> filter (\<lambda>q. q = p) xs = [p]"
  by (induction xs) (auto simp: filter_empty_conv)

lemma filter_merged_bucket:
  assumes "p \<in> set (bucket_order recs)"
  shows "filter (\<lambda>m. merge_key m = Some p) (map (merged_bucket recs) (bucket_order recs))
           = [merged_bucket recs p]"
proof -
  have "merge_key (merged_bucket recs q) = Some q" if "q \<in> set (bucket_order recs)" for q
    using merge_key_merged_bucket [of "snd q" recs "fst q"] bucket_order_keys [OF that]
    by simp
  then have "filter (\<lambda>m. merge_key m = Some p) (map (merged_bucket recs) (bucket_order recs))
      = map (merged_bucket recs) (filter (\<lambda>q. q = p) (bucket_order recs))"
    by (simp add: filter_map comp_def cong: filter_cong)
  with assms show ?thesis
    by (simp add: filter_eq_distinct distinct_bucket_order)
qed

lemma all_recordings_Nil [simp]: "all_recordings [] = []"
  by (simp add: all_recordings_def flatten_def List.map_filter_def)

lemma all_recordings_Cons [simp]:
  "all_recordings (e # es) = recordings_of e @ all_recordings es"
  by (auto simp: all_recordings_def flatten_def List.map_filter_def recordings_of_def)

lemma all_recordings_append [simp]:
  "all_recordings (es @ fs) = all_recordings es @ all_recordings fs"
  by (induction es) simp_all

text \<open>
  Writing the visited recordings back to their result entries changes each entry's
  recordings in place.
\<close>

lemma write_back_map:
  "write_back es (map f (all_recordings es) @ rest) = map (map_entry (map f)) es"
proof (induction es)
  case Nil
  then show ?case by simp
next
  case (Cons e es)
  then show ?case
    by (cases "entry_recordings e") (simp_all add: recordings_of_def map_entry_def)
qed

text \<open>
  \<open>write_back\<close> loses nothing: the recordings of the entries written back are the
  flat list again.
\<close>

lemma write_back_general:
  "length flat = length (all_recordings es) \<Longrightarrow> all_recordings (write_back es flat) = flat"
proof (induction es arbitrary: flat)
  case Nil
  then show ?case by simp
next
  case (Cons e es)
  then show ?case
    by (cases "entry_recordings e") (simp_all add: recordings_of_def)
qed

lemma all_recordings_map_entry_filter:
  "all_recordings (map (map_entry (filter P)) es) = filter P (all_recordings es)"
  by (induction es) (auto simp: recordings_of_def map_entry_def split: option.splits)

lemma get_result_for_releasegroup_expand:
  "map (\<lambda>g. get_result_for_releasegroup g (join_artist_names as) t) gs = expand (t, as, gs)"
  by (auto simp: expand_def get_result_for_releasegroup_def join_artist_names_def
      split: option.splits)

text \<open>The result builder on merged recordings.\<close>

lemma get_results_loop_merged:
  "get_results_loop reg res (map merged ms) =
     (foldl append_if_new reg (map registry_key ms), Inr (res @ concat (map expand ms)))"
proof (induction ms arbitrary: reg res)
  case Nil
  then show ?case by simp
next
  case (Cons m ms)
  obtain t as gs where m: "m = (t, as, gs)" by (cases m)
  have key: "t @ ''_'' @ join_artist_names as = registry_key m"
    by (simp add: m registry_key_def join_artist_names_def)
  show ?case
    using Cons.IH
    by (simp add: m merged_def Let_def get_result_for_releasegroup_expand)
       (simp add: registry_key_def join_artist_names_def append_if_new_def)
qed

lemma get_results_loop_skip:
  "\<not> complete r \<Longrightarrow> get_results_loop reg res (r # rest) = get_results_loop reg res rest"
  by (auto simp: complete_def split: option.splits)

lemma snd_merge_loop_Cons:
  "snd (merge_loop st (x # xs)) =
     (case snd (merge_step st x) of Inl e \<Rightarrow> Inl e | Inr st' \<Rightarrow> snd (merge_loop st' xs))"
  by (auto split: prod.splits sum.splits)

lemma merge_loop_filter_complete:
  "snd (merge_loop st (filter complete xs)) = snd (merge_loop st xs)"
proof (induction xs arbitrary: st)
  case Nil
  then show ?case by simp
next
  case (Cons x xs)
  show ?case
  proof (cases "complete x")
    case True
    with Cons show ?thesis
      by (simp only: filter.simps if_True snd_merge_loop_Cons split: sum.splits)
  next
    case False
    then have "merge_step st x = (x, Inr st)"
      by (simp add: merge_step_skip merge_key_None_iff)
    with False Cons show ?thesis by (simp add: snd_merge_loop_Cons del: merge_loop.simps)
  qed
qed

lemma merge_matching_recordings_filter_complete:
  "snd (merge_matching_recordings (filter complete xs)) = snd (merge_matching_recordings xs)"
  using merge_loop_filter_complete
    [of "\<lparr>grouped_by_title_and_artist = [], artists_by_title_and_artist = []\<rparr>" xs]
  by (auto simp: merge_matching_recordings_def split: prod.splits sum.splits)

section \<open>The whole lookup\<close>

lemma merged_order: "map (merged_bucket recs) ps = map merged (map (bucket_triple recs) ps)"
  by (simp add: merged_bucket_def)

lemma extract_recordings_contract:
  assumes "input_contract (all_recordings es)"
  shows "extract_recordings es =
     (map (map_entry (map setdefault_recording)) es,
      Inr (map merged (map (bucket_triple (all_recordings es)) (bucket_order (all_recordings es)))))"
  using assms write_back_map [of es setdefault_recording "[]"]
  by (simp add: extract_recordings_def merge_matching_recordings_contract merged_order
      del: map_map)

lemma extract_recordings_violation:
  assumes "\<not> input_contract (all_recordings es)"
  shows "snd (extract_recordings es) = Inl (KeyError ''releasegroups'')"
  using assms
  by (simp add: extract_recordings_def merge_matching_recordings_general split: prod.splits)

lemma parse_lookup_result_contract:
  assumes "resp_status data = ''ok''" and "resp_results data = Some es"
    and "input_contract (all_recordings es)"
  shows "parse_lookup_result data reg =
     ((data\<lparr>resp_results := Some (map (map_entry (map setdefault_recording)) es)\<rparr>,
       foldl append_if_new reg (map registry_key
         (map (bucket_triple (all_recordings es)) (bucket_order (all_recordings es))))),
      Inr (concat (map expand
         (map (bucket_triple (all_recordings es)) (bucket_order (all_recordings es))))))"
  using assms
  by (simp add: parse_lookup_result_def extract_recordings_contract get_results_for_recordings_def
      get_results_loop_merged del: map_map)

lemma parse_lookup_result_violation:
  assumes "resp_status data = ''ok''" and "resp_results data = Some es"
    and "\<not> input_contract (all_recordings es)"
  shows "snd (parse_lookup_result data reg) = Inl (KeyError ''releasegroups'')"
    and "snd (fst (parse_lookup_result data reg)) = reg"
  using assms extract_recordings_violation [of es]
  by (auto simp: parse_lookup_result_def split: prod.splits sum.splits)

lemma snd_extract_recordings:
  "snd (extract_recordings es) = snd (merge_matching_recordings (all_recordings es))"
  by (simp add: extract_recordings_def split: prod.splits)

lemma parse_lookup_result_output:
  "resp_status data = ''ok'' \<Longrightarrow> resp_results data = Some es \<Longrightarrow>
     (snd (fst (parse_lookup_result data reg)), snd (parse_lookup_result data reg)) =
       (case snd (merge_matching_recordings (all_recordings es)) of
          Inl e \<Rightarrow> (reg, Inl e)
        | Inr ms \<Rightarrow> get_results_for_recordings reg ms)"
  using snd_extract_recordings [of es]
  by (auto simp: parse_lookup_result_def split: prod.splits sum.splits)

lemma in_all_recordings:
  "r \<in> set (all_recordings es) \<longleftrightarrow>
     (\<exists>e \<in> set es. \<exists>rs. entry_recordings e = Some rs \<and> r \<in> set rs)"
  by (induction es) (auto simp: recordings_of_def split: option.splits)

lemma fst_setdefault_id: "fst (setdefault_id a) = (case a_id a of None \<Rightarrow> '''' | Some i \<Rightarrow> i)"
  by (simp add: setdefault_id_def split: option.splits)

section \<open>The spec's examples\<close>

text \<open>
  Example A of the spec's section 8: two result entries, one recording each, with the
  same title and different artists.
\<close>

lemma example_A:
  "snd (parse_lookup_result
     \<lparr>resp_status = ''ok'',
      resp_results = Some
       [\<lparr>entry_id = ''e1'', entry_recordings = Some
           [\<lparr>rec_id = None, rec_title = Some ''Thunderstruck'',
              rec_artists = Some [\<lparr>a_id = Some ''a1'', a_name = ''AC/DC''\<rparr>],
              rec_releasegroups = Some
                [\<lparr>rg_id = ''r1'', rg_title = Some ''The Razor's Edge'', rg_name = None,
                   rg_artists = None, rg_secondarytypes = None\<rparr>]\<rparr>]\<rparr>,
        \<lparr>entry_id = ''e2'', entry_recordings = Some
           [\<lparr>rec_id = None, rec_title = Some ''Thunderstruck'',
              rec_artists = Some [\<lparr>a_id = Some ''a2'', a_name = ''2Cellos''\<rparr>],
              rec_releasegroups = Some
                [\<lparr>rg_id = ''r2'', rg_title = Some ''Celloverse'', rg_name = None,
                   rg_artists = None, rg_secondarytypes = None\<rparr>]\<rparr>]\<rparr>]\<rparr> []) =
   Inr [\<lparr>tm_artist = ''AC/DC'', tm_title = ''Thunderstruck'',
          tm_album = Some ''The Razor's Edge'', tm_albumartist = None\<rparr>,
        \<lparr>tm_artist = ''2Cellos'', tm_title = ''Thunderstruck'',
          tm_album = Some ''Celloverse'', tm_albumartist = None\<rparr>]"
  by code_simp

text \<open>
  Example B: two recordings with the same title, the same artist id and the same release
  group give one track.
\<close>

lemma example_B:
  "snd (parse_lookup_result
     (response [entry ''e''
        [\<lparr>rec_id = None, rec_title = Some ''Foo'',
           rec_artists = Some [\<lparr>a_id = Some ''x'', a_name = ''N''\<rparr>],
           rec_releasegroups = Some
             [\<lparr>rg_id = ''g1'', rg_title = None, rg_name = None, rg_artists = None,
                rg_secondarytypes = None\<rparr>]\<rparr>,
         \<lparr>rec_id = None, rec_title = Some ''Foo'',
           rec_artists = Some [\<lparr>a_id = Some ''x'', a_name = ''N''\<rparr>],
           rec_releasegroups = Some
             [\<lparr>rg_id = ''g1'', rg_title = None, rg_name = None, rg_artists = None,
                rg_secondarytypes = None\<rparr>]\<rparr>]]) []) =
   Inr [\<lparr>tm_artist = ''N'', tm_title = ''Foo'', tm_album = None, tm_albumartist = None\<rparr>]"
  by code_simp

text \<open>
  Example C: of a compilation and a release group without secondary types, the second
  alone gives a track.
\<close>

lemma example_C:
  "snd (parse_lookup_result
     (response [entry ''e''
        [\<lparr>rec_id = None, rec_title = Some ''Foo'',
           rec_artists = Some [\<lparr>a_id = Some ''x'', a_name = ''N''\<rparr>],
           rec_releasegroups = Some
             [\<lparr>rg_id = ''g1'', rg_title = Some ''One'', rg_name = None, rg_artists = None,
                rg_secondarytypes = Some [''compilation'']\<rparr>,
              \<lparr>rg_id = ''g2'', rg_title = Some ''Two'', rg_name = None, rg_artists = None,
                rg_secondarytypes = None\<rparr>]\<rparr>]]) []) =
   Inr [\<lparr>tm_artist = ''N'', tm_title = ''Foo'', tm_album = Some ''Two'',
          tm_albumartist = None\<rparr>]"
  by code_simp

section \<open>Properties\<close>

text \<open>
  C1, as amended. Two recordings of any result entries with the same title and the same
  sequence of artist ids (an absent id counting as the empty string) have the same merge
  key, and the merger returns exactly one merged recording with that key. Its release
  groups are the Release Group Filter applied to the deduplication, first occurrences
  kept in order, of the concatenation in encounter order of the release groups of the
  recordings with that key: of the two recordings when no other recording has the key.
  The response is one the merger completes on: every recording with a title and artists
  has its \<open>releasegroups\<close>.
\<close>

theorem merged_releasegroups_are_filtered:
  assumes c: "input_contract (all_recordings results)"
    and e1: "e1 \<in> set results" "entry_recordings e1 = Some rs1" "r1 \<in> set rs1"
    and e2: "e2 \<in> set results" "entry_recordings e2 = Some rs2" "r2 \<in> set rs2"
    and t: "rec_title r1 = Some t" "rec_title r2 = Some t"
    and a: "rec_artists r1 = Some as1" "rec_artists r2 = Some as2"
    and ids: "map (\<lambda>a. case a_id a of None \<Rightarrow> '''' | Some i \<Rightarrow> i) as1 =
              map (\<lambda>a. case a_id a of None \<Rightarrow> '''' | Some i \<Rightarrow> i) as2"
  shows "\<exists>out m. snd (extract_recordings results) = Inr out \<and>
           merge_key r2 = merge_key r1 \<and>
           filter (\<lambda>m. merge_key m = merge_key r1) out = [m] \<and>
           rec_releasegroups m =
             Some (filter_out_compilations_from_releasegroups
               (remove_duplicate_dicts
                 (concat (map releasegroups_of
                   (filter (\<lambda>r. merge_key r = merge_key r1) (all_recordings results)))))) \<and>
           (filter (\<lambda>r. merge_key r = merge_key r1) (all_recordings results) = [r1, r2] \<longrightarrow>
              rec_releasegroups m =
                Some (filter_out_compilations_from_releasegroups
                  (remove_duplicate_dicts (releasegroups_of r1 @ releasegroups_of r2))))"
proof -
  let ?recs = "all_recordings results"
  let ?k = "artist_key as1"
  have k1: "merge_key r1 = Some (t, ?k)"
    using t a by (simp add: merge_key_def)
  have "artist_key as2 = ?k"
    using ids by (simp add: artist_key_def fst_setdefault_id comp_def)
  then have k2: "merge_key r2 = Some (t, ?k)"
    using t a by (simp add: merge_key_def)
  have "r1 \<in> set ?recs"
    using e1 by (auto simp: in_all_recordings)
  with k1 have p: "(t, ?k) \<in> set (bucket_order ?recs)"
    by (auto simp: in_bucket_order)
  have out: "snd (extract_recordings results) =
      Inr (map (merged_bucket ?recs) (bucket_order ?recs))"
    using c by (simp add: snd_extract_recordings merge_matching_recordings_contract)
  have one: "filter (\<lambda>m. merge_key m = merge_key r1)
        (map (merged_bucket ?recs) (bucket_order ?recs)) = [merged_bucket ?recs (t, ?k)]"
    unfolding k1 using p by (rule filter_merged_bucket)
  have gs: "rec_releasegroups (merged_bucket ?recs (t, ?k)) =
      Some (filter_out_compilations_from_releasegroups
        (remove_duplicate_dicts
          (concat (map releasegroups_of (filter (\<lambda>r. merge_key r = merge_key r1) ?recs)))))"
    by (simp add: merged_bucket_def merged_def bucket_triple_def bucket_releasegroups_def
        bucket_def k1)
  have two: "rec_releasegroups (merged_bucket ?recs (t, ?k)) =
      Some (filter_out_compilations_from_releasegroups
        (remove_duplicate_dicts (releasegroups_of r1 @ releasegroups_of r2)))"
    if "filter (\<lambda>r. merge_key r = merge_key r1) ?recs = [r1, r2]"
    using gs that by simp
  from out one gs two k1 k2 show ?thesis by auto
qed

text \<open>
  An instance: the two recordings come from two result entries, the first with a
  compilation and an album, the second with the same album. The merged recording keeps
  the album once.
\<close>

theorem merged_releasegroups_are_filtered_witness:
  "input_contract (all_recordings
      [entry ''e1'' [example_recording ''Foo'' ''x'' [compilation, album_group]],
       entry ''e2'' [example_recording ''Foo'' ''x'' [album_group]]]) \<and>
   (\<exists>out m. snd (extract_recordings
        [entry ''e1'' [example_recording ''Foo'' ''x'' [compilation, album_group]],
         entry ''e2'' [example_recording ''Foo'' ''x'' [album_group]]]) = Inr out \<and>
      filter (\<lambda>m. merge_key m =
          merge_key (example_recording ''Foo'' ''x'' [compilation, album_group])) out = [m] \<and>
      rec_releasegroups m = Some [album_group])"
proof -
  let ?r1 = "example_recording ''Foo'' ''x'' [compilation, album_group]"
  let ?r2 = "example_recording ''Foo'' ''x'' [album_group]"
  let ?es = "[entry ''e1'' [?r1], entry ''e2'' [?r2]]"
  have c: "input_contract (all_recordings ?es)" by code_simp
  have e1: "entry ''e1'' [?r1] \<in> set ?es" "entry_recordings (entry ''e1'' [?r1]) = Some [?r1]"
    "?r1 \<in> set [?r1]"
    by (simp_all add: entry_def)
  have e2: "entry ''e2'' [?r2] \<in> set ?es" "entry_recordings (entry ''e2'' [?r2]) = Some [?r2]"
    "?r2 \<in> set [?r2]"
    by (simp_all add: entry_def)
  have t: "rec_title ?r1 = Some ''Foo''" "rec_title ?r2 = Some ''Foo''"
    by (simp_all add: example_recording_def)
  have a: "rec_artists ?r1 = Some [\<lparr>a_id = Some ''x'', a_name = ''N''\<rparr>]"
    "rec_artists ?r2 = Some [\<lparr>a_id = Some ''x'', a_name = ''N''\<rparr>]"
    by (simp_all add: example_recording_def)
  have v: "filter_out_compilations_from_releasegroups
             (remove_duplicate_dicts
               (concat (map releasegroups_of
                 (filter (\<lambda>r. merge_key r = merge_key ?r1) (all_recordings ?es))))) =
           [album_group]"
    by code_simp
  show ?thesis
    using c merged_releasegroups_are_filtered [OF c e1 e2 t a] unfolding v by blast
qed

text \<open>
  C1 as stated fails: of two recordings with the same title and artist ids, the first has
  a compilation, the second an album. The deduplicated concatenation has both release
  groups; the merged recording has the album only.
\<close>

theorem merged_releasegroups_counterexample:
  "snd (merge_matching_recordings
          [example_recording ''Foo'' ''x'' [compilation],
           example_recording ''Foo'' ''x'' [album_group]]) =
     Inr [example_recording ''Foo'' ''x'' [album_group]] \<and>
   rec_releasegroups (example_recording ''Foo'' ''x'' [album_group]) \<noteq>
     Some (remove_duplicate_dicts ([compilation] @ [album_group]))"
  by code_simp

text \<open>
  C2. Release Group Filter: when at least one release group has no \<open>secondarytypes\<close>
  key, the result is exactly the release groups without that key, in order; when every
  release group has the key, the result is the list itself. So a non-empty list is never
  mapped to the empty list.
\<close>

theorem filter_out_compilations_spec:
  "((\<exists>g \<in> set gs. rg_secondarytypes g = None) \<longrightarrow>
      filter_out_compilations_from_releasegroups gs =
        filter (\<lambda>g. rg_secondarytypes g = None) gs) \<and>
   ((\<forall>g \<in> set gs. rg_secondarytypes g \<noteq> None) \<longrightarrow>
      filter_out_compilations_from_releasegroups gs = gs) \<and>
   (gs \<noteq> [] \<longrightarrow> filter_out_compilations_from_releasegroups gs \<noteq> [])"
proof (intro conjI impI)
  assume "\<exists>g \<in> set gs. rg_secondarytypes g = None"
  then have "filter (\<lambda>g. rg_secondarytypes g = None) gs \<noteq> []"
    by (simp add: filter_empty_conv)
  then show "filter_out_compilations_from_releasegroups gs =
      filter (\<lambda>g. rg_secondarytypes g = None) gs"
    by (simp add: filter_out_compilations_from_releasegroups_def)
next
  assume "\<forall>g \<in> set gs. rg_secondarytypes g \<noteq> None"
  then have "filter (\<lambda>g. rg_secondarytypes g = None) gs = []"
    by (simp add: filter_empty_conv)
  then show "filter_out_compilations_from_releasegroups gs = gs"
    by (simp add: filter_out_compilations_from_releasegroups_def)
next
  assume "gs \<noteq> []"
  then show "filter_out_compilations_from_releasegroups gs \<noteq> []"
    by (simp add: filter_out_compilations_from_releasegroups_def Let_def)
qed

text \<open>
  An instance of each case: a compilation before an album, and a compilation alone.
\<close>

theorem filter_out_compilations_spec_witness:
  "filter_out_compilations_from_releasegroups
     [\<lparr>rg_id = ''g1'', rg_title = None, rg_name = None, rg_artists = None,
        rg_secondarytypes = Some [''Compilation'']\<rparr>,
      \<lparr>rg_id = ''g2'', rg_title = None, rg_name = None, rg_artists = None,
        rg_secondarytypes = None\<rparr>] =
     [\<lparr>rg_id = ''g2'', rg_title = None, rg_name = None, rg_artists = None,
        rg_secondarytypes = None\<rparr>] \<and>
   filter_out_compilations_from_releasegroups
     [\<lparr>rg_id = ''g1'', rg_title = None, rg_name = None, rg_artists = None,
        rg_secondarytypes = Some [''Compilation'']\<rparr>] =
     [\<lparr>rg_id = ''g1'', rg_title = None, rg_name = None, rg_artists = None,
        rg_secondarytypes = Some [''Compilation'']\<rparr>]"
  using filter_out_compilations_spec
      [of "[\<lparr>rg_id = ''g1'', rg_title = None, rg_name = None, rg_artists = None,
              rg_secondarytypes = Some [''Compilation'']\<rparr>,
            \<lparr>rg_id = ''g2'', rg_title = None, rg_name = None, rg_artists = None,
              rg_secondarytypes = None\<rparr>]"]
    filter_out_compilations_spec
      [of "[\<lparr>rg_id = ''g1'', rg_title = None, rg_name = None, rg_artists = None,
              rg_secondarytypes = Some [''Compilation'']\<rparr>]"]
  by simp

text \<open>
  C3. For a merged recording (a dictionary with \<open>title\<close>, \<open>artists\<close> and
  \<open>releasegroups\<close>) the result builder returns one track per release group, in the
  order of the release groups, so as many tracks as release groups: \<open>title\<close> is the
  recording's title, \<open>artist\<close> the names of its artists joined with \<open>"; "\<close> in
  order and with repetitions, \<open>album\<close> the release group's title, else its name, else
  \<open>None\<close>, and \<open>albumartist\<close> the joined names of the release group's own artists,
  else \<open>None\<close>. For a list of merged recordings the tracks follow each other in the
  order of the recordings.
\<close>

theorem result_builder_expands:
  "snd (get_results_for_recordings reg (map merged ms)) = Inr (concat (map expand ms)) \<and>
   snd (get_results_for_recordings reg [merged (t, as, gs)]) =
     Inr (map (\<lambda>g. \<lparr>tm_artist = str_join ''; '' (map a_name as), tm_title = t,
                     tm_album = (case rg_title g of Some a \<Rightarrow> Some a
                                 | None \<Rightarrow> (case rg_name g of Some n \<Rightarrow> Some n | None \<Rightarrow> None)),
                     tm_albumartist = (case rg_artists g of
                        Some bs \<Rightarrow> Some (str_join ''; '' (map a_name bs))
                      | None \<Rightarrow> None)\<rparr>) gs) \<and>
   (\<exists>out. snd (get_results_for_recordings reg [merged (t, as, gs)]) = Inr out \<and>
      length out = length gs)"
proof -
  have 1: "snd (get_results_for_recordings reg (map merged ms)) = Inr (concat (map expand ms))"
    for ms
    by (simp add: get_results_for_recordings_def get_results_loop_merged)
  have 2: "expand (t, as, gs) =
      map (\<lambda>g. \<lparr>tm_artist = str_join ''; '' (map a_name as), tm_title = t,
                 tm_album = (case rg_title g of Some a \<Rightarrow> Some a
                             | None \<Rightarrow> (case rg_name g of Some n \<Rightarrow> Some n | None \<Rightarrow> None)),
                 tm_albumartist = (case rg_artists g of
                    Some bs \<Rightarrow> Some (str_join ''; '' (map a_name bs))
                  | None \<Rightarrow> None)\<rparr>) gs"
    by (auto simp: expand_def split: option.splits)
  have 3: "snd (get_results_for_recordings reg [merged (t, as, gs)]) = Inr (expand (t, as, gs))"
    using 1 [of "[(t, as, gs)]"] by simp
  have 4: "length (expand (t, as, gs)) = length gs"
    by (simp add: expand_def)
  show ?thesis
    using 1 2 3 4 by simp
qed

text \<open>
  An instance: two artists with the same name, and three release groups, with a title,
  with a name and artists, with neither.
\<close>

theorem result_builder_expands_witness:
  "snd (get_results_for_recordings []
     [merged (''Foo'', [\<lparr>a_id = Some ''1'', a_name = ''A''\<rparr>, \<lparr>a_id = None, a_name = ''A''\<rparr>],
        [album_group,
         \<lparr>rg_id = ''g3'', rg_title = None, rg_name = Some ''Live'',
           rg_artists = Some [\<lparr>a_id = None, a_name = ''B''\<rparr>, \<lparr>a_id = None, a_name = ''C''\<rparr>],
           rg_secondarytypes = None\<rparr>,
         \<lparr>rg_id = ''g4'', rg_title = None, rg_name = None, rg_artists = None,
           rg_secondarytypes = None\<rparr>])]) =
   Inr [\<lparr>tm_artist = ''A; A'', tm_title = ''Foo'', tm_album = Some ''Album'',
          tm_albumartist = None\<rparr>,
        \<lparr>tm_artist = ''A; A'', tm_title = ''Foo'', tm_album = Some ''Live'',
          tm_albumartist = Some ''B; C''\<rparr>,
        \<lparr>tm_artist = ''A; A'', tm_title = ''Foo'', tm_album = None,
          tm_albumartist = None\<rparr>]"
  using result_builder_expands [of "[]" "[]" "''Foo''"
      "[\<lparr>a_id = Some ''1'', a_name = ''A''\<rparr>, \<lparr>a_id = None, a_name = ''A''\<rparr>]"
      "[album_group,
         \<lparr>rg_id = ''g3'', rg_title = None, rg_name = Some ''Live'',
           rg_artists = Some [\<lparr>a_id = None, a_name = ''B''\<rparr>, \<lparr>a_id = None, a_name = ''C''\<rparr>],
           rg_secondarytypes = None\<rparr>,
         \<lparr>rg_id = ''g4'', rg_title = None, rg_name = None, rg_artists = None,
           rg_secondarytypes = None\<rparr>]"]
  by (simp add: album_group_def)

text \<open>
  C4. A response whose status is not \<open>"ok"\<close> fails with \<open>WebServiceError\<close> and the
  message \<open>"status: "\<close> followed by the status; a response without \<open>results\<close>
  fails with \<open>WebServiceError\<close> (\<open>"results not included"\<close> when the status is
  \<open>"ok"\<close>). In both cases no list is returned, and the response and the registry are
  what they were.
\<close>

theorem validator_fails_whole_operation:
  "(resp_status data \<noteq> ''ok'' \<longrightarrow>
      parse_lookup_result data reg =
        ((data, reg), Inl (WebServiceError (''status: '' @ resp_status data)))) \<and>
   (resp_status data = ''ok'' \<and> resp_results data = None \<longrightarrow>
      parse_lookup_result data reg =
        ((data, reg), Inl (WebServiceError ''results not included''))) \<and>
   (resp_results data = None \<longrightarrow>
      (\<exists>msg. parse_lookup_result data reg = ((data, reg), Inl (WebServiceError msg))))"
  by (simp add: parse_lookup_result_def)

text \<open>An instance of each failure, with a registry that holds a key already.\<close>

theorem validator_fails_whole_operation_witness:
  "parse_lookup_result \<lparr>resp_status = ''error'', resp_results = Some []\<rparr> [''Foo_N''] =
     ((\<lparr>resp_status = ''error'', resp_results = Some []\<rparr>, [''Foo_N'']),
      Inl (WebServiceError ''status: error'')) \<and>
   parse_lookup_result \<lparr>resp_status = ''ok'', resp_results = None\<rparr> [''Foo_N''] =
     ((\<lparr>resp_status = ''ok'', resp_results = None\<rparr>, [''Foo_N'']),
      Inl (WebServiceError ''results not included''))"
  using validator_fails_whole_operation
      [of "\<lparr>resp_status = ''error'', resp_results = Some []\<rparr>" "[''Foo_N'']"]
    validator_fails_whole_operation
      [of "\<lparr>resp_status = ''ok'', resp_results = None\<rparr>" "[''Foo_N'']"]
  by simp

text \<open>
  C5. A recording without \<open>title\<close> or without \<open>artists\<close> is skipped by the merger
  before any key is computed: the iteration changes neither the dictionaries nor the
  recording and raises nothing. The result builder skips such a recording as well. So the
  whole lookup returns the same result, and leaves the same registry, as on the response
  without its incomplete recordings.
\<close>

theorem incomplete_recordings_are_skipped:
  "(rec_title r = None \<or> rec_artists r = None \<longrightarrow> merge_step st r = (r, Inr st)) \<and>
   (rec_title r = None \<or> rec_artists r = None \<longrightarrow>
      snd (merge_matching_recordings (xs @ r # ys)) =
        snd (merge_matching_recordings (xs @ ys))) \<and>
   (rec_title r = None \<or> rec_artists r = None \<longrightarrow>
      get_results_loop reg res (r # rest) = get_results_loop reg res rest) \<and>
   (resp_status data = ''ok'' \<and> resp_results data = Some es \<longrightarrow>
      snd (parse_lookup_result
             (data\<lparr>resp_results := Some (map (map_entry (filter complete)) es)\<rparr>) reg) =
        snd (parse_lookup_result data reg) \<and>
      snd (fst (parse_lookup_result
             (data\<lparr>resp_results := Some (map (map_entry (filter complete)) es)\<rparr>) reg)) =
        snd (fst (parse_lookup_result data reg)))"
proof (intro conjI impI)
  assume "rec_title r = None \<or> rec_artists r = None"
  then have r: "\<not> complete r" by (auto simp: complete_def)
  then show "merge_step st r = (r, Inr st)"
    by (simp add: merge_step_skip merge_key_None_iff)
  from r have "filter complete (xs @ r # ys) = filter complete (xs @ ys)"
    by simp
  then show "snd (merge_matching_recordings (xs @ r # ys)) =
      snd (merge_matching_recordings (xs @ ys))"
    using merge_matching_recordings_filter_complete [of "xs @ r # ys"]
      merge_matching_recordings_filter_complete [of "xs @ ys"]
    by simp
  from r show "get_results_loop reg res (r # rest) = get_results_loop reg res rest"
    by (rule get_results_loop_skip)
next
  let ?data = "data\<lparr>resp_results := Some (map (map_entry (filter complete)) es)\<rparr>"
  assume a: "resp_status data = ''ok'' \<and> resp_results data = Some es"
  have m: "snd (merge_matching_recordings (all_recordings (map (map_entry (filter complete)) es)))
      = snd (merge_matching_recordings (all_recordings es))"
    by (simp add: all_recordings_map_entry_filter merge_matching_recordings_filter_complete)
  have "(snd (fst (parse_lookup_result ?data reg)), snd (parse_lookup_result ?data reg)) =
        (snd (fst (parse_lookup_result data reg)), snd (parse_lookup_result data reg))"
    using a
    by (simp add: parse_lookup_result_output [of ?data "map (map_entry (filter complete)) es"]
        parse_lookup_result_output [of data es] m)
  then show "snd (parse_lookup_result ?data reg) = snd (parse_lookup_result data reg)"
    and "snd (fst (parse_lookup_result ?data reg)) = snd (fst (parse_lookup_result data reg))"
    by simp_all
qed

text \<open>An instance: a recording without title before a complete one.\<close>

theorem incomplete_recordings_are_skipped_witness:
  "merge_step empty_state untitled_recording = (untitled_recording, Inr empty_state) \<and>
   snd (merge_matching_recordings
          [example_recording ''Foo'' ''x'' [], untitled_recording,
           example_recording ''Bar'' ''x'' []]) =
     snd (merge_matching_recordings
          [example_recording ''Foo'' ''x'' [], example_recording ''Bar'' ''x'' []]) \<and>
   get_results_loop [] [] [untitled_recording] = get_results_loop [] [] [] \<and>
   snd (parse_lookup_result
          (response [entry ''e'' [untitled_recording, example_recording ''Foo'' ''x'' [album_group]]])
          []) =
     snd (parse_lookup_result
          (response [entry ''e'' [example_recording ''Foo'' ''x'' [album_group]]]) [])"
proof -
  let ?es = "[entry ''e'' [untitled_recording, example_recording ''Foo'' ''x'' [album_group]]]"
  have h: "rec_title untitled_recording = None \<or> rec_artists untitled_recording = None"
    by (simp add: untitled_recording_def)
  have d: "resp_status (response ?es) = ''ok'' \<and> resp_results (response ?es) = Some ?es"
    by (simp add: response_def)
  have s: "(response ?es)\<lparr>resp_results := Some (map (map_entry (filter complete)) ?es)\<rparr> =
      response [entry ''e'' [example_recording ''Foo'' ''x'' [album_group]]]"
    by (simp add: response_def entry_def map_entry_def complete_def untitled_recording_def
        example_recording_def)
  show ?thesis
    using h d incomplete_recordings_are_skipped
      [of untitled_recording empty_state "[example_recording ''Foo'' ''x'' []]"
        "[example_recording ''Bar'' ''x'' []]" "[]" "[]" "[]" "response ?es" ?es]
    unfolding s by simp
qed

text \<open>
  C6. When the merger completes, the artists of each merged recording are the artists of
  the first recording of the input with the key of its bucket: the very list, which by
  then holds the ids that \<open>setdefault\<close> wrote into it. No later recording of the bucket
  contributes to them.
\<close>

theorem merged_artists_are_first_seen:
  assumes "input_contract recs"
  shows "\<exists>out. merge_matching_recordings recs = (map setdefault_recording recs, Inr out) \<and>
           length out = length (bucket_order recs) \<and>
           (\<forall>i < length out. \<exists>xs r ys.
               recs = xs @ r # ys \<and> merge_key r = Some (bucket_order recs ! i) \<and>
               (\<forall>y \<in> set xs. merge_key y \<noteq> Some (bucket_order recs ! i)) \<and>
               rec_artists (out ! i) = rec_artists (setdefault_recording r) \<and>
               (\<exists>as. rec_artists r = Some as \<and>
                  rec_artists (out ! i) = Some (map (snd \<circ> setdefault_id) as)))"
proof -
  let ?out = "map (merged_bucket recs) (bucket_order recs)"
  have "\<exists>xs r ys. recs = xs @ r # ys \<and> merge_key r = Some (bucket_order recs ! i) \<and>
          (\<forall>y \<in> set xs. merge_key y \<noteq> Some (bucket_order recs ! i)) \<and>
          rec_artists (?out ! i) = rec_artists (setdefault_recording r) \<and>
          (\<exists>as. rec_artists r = Some as \<and>
             rec_artists (?out ! i) = Some (map (snd \<circ> setdefault_id) as))"
    if i: "i < length (bucket_order recs)" for i
  proof -
    obtain t k where p: "bucket_order recs ! i = (t, k)" by (cases "bucket_order recs ! i")
    with i have "(t, k) \<in> set (bucket_order recs)" by (metis nth_mem)
    then have "k \<in> set (first_keys recs t)" by (simp add: in_bucket_order_pair)
    then obtain xs r ys where recs: "recs = xs @ r # ys" and r: "merge_key r = Some (t, k)"
      and xs: "\<forall>y \<in> set xs. merge_key y \<noteq> Some (t, k)"
      by (rule bucket_first)
    then have "Some (bucket_artists recs t k) = rec_artists (setdefault_recording r)"
      by (rule bucket_artists_first)
    then have a: "rec_artists (?out ! i) = rec_artists (setdefault_recording r)"
      using i p by (simp add: merged_bucket_def merged_def bucket_triple_def)
    from r obtain as where as: "rec_title r = Some t" "rec_artists r = Some as"
      by (blast dest: merge_key_SomeD)
    then have "rec_artists (setdefault_recording r) = Some (map (snd \<circ> setdefault_id) as)"
      by (simp add: setdefault_recording_def)
    with a as recs r xs p show ?thesis
      by (intro exI [of _ xs] exI [of _ r] exI [of _ ys] exI [of _ as]) simp
  qed
  then show ?thesis
    using assms by (simp add: merge_matching_recordings_contract)
qed

text \<open>
  An instance: two recordings with the same title and an artist without id, named
  \<open>A\<close> in the first and \<open>B\<close> in the second. The merged recording has the artist
  \<open>A\<close>.
\<close>

theorem merged_artists_are_first_seen_witness:
  "input_contract
     [anonymous_recording ''Foo'' ''A'' [], anonymous_recording ''Foo'' ''B'' [album_group]] \<and>
   (\<exists>out. merge_matching_recordings
        [anonymous_recording ''Foo'' ''A'' [], anonymous_recording ''Foo'' ''B'' [album_group]] =
      (map setdefault_recording
         [anonymous_recording ''Foo'' ''A'' [],
          anonymous_recording ''Foo'' ''B'' [album_group]], Inr out) \<and>
      length out = length (bucket_order
         [anonymous_recording ''Foo'' ''A'' [],
          anonymous_recording ''Foo'' ''B'' [album_group]]) \<and>
      (\<forall>i < length out. \<exists>xs r ys.
         [anonymous_recording ''Foo'' ''A'' [],
          anonymous_recording ''Foo'' ''B'' [album_group]] = xs @ r # ys \<and>
         merge_key r = Some (bucket_order
           [anonymous_recording ''Foo'' ''A'' [],
            anonymous_recording ''Foo'' ''B'' [album_group]] ! i) \<and>
         (\<forall>y \<in> set xs. merge_key y \<noteq> Some (bucket_order
           [anonymous_recording ''Foo'' ''A'' [],
            anonymous_recording ''Foo'' ''B'' [album_group]] ! i)) \<and>
         rec_artists (out ! i) = rec_artists (setdefault_recording r) \<and>
         (\<exists>as. rec_artists r = Some as \<and>
            rec_artists (out ! i) = Some (map (snd \<circ> setdefault_id) as)))) \<and>
   snd (merge_matching_recordings
        [anonymous_recording ''Foo'' ''A'' [], anonymous_recording ''Foo'' ''B'' [album_group]]) =
     Inr [\<lparr>rec_id = None, rec_title = Some ''Foo'',
            rec_artists = Some [\<lparr>a_id = Some '''', a_name = ''A''\<rparr>],
            rec_releasegroups = Some [album_group]\<rparr>]"
proof -
  let ?recs = "[anonymous_recording ''Foo'' ''A'' [],
                anonymous_recording ''Foo'' ''B'' [album_group]]"
  have c: "input_contract ?recs" by code_simp
  have v: "snd (merge_matching_recordings ?recs) =
     Inr [\<lparr>rec_id = None, rec_title = Some ''Foo'',
            rec_artists = Some [\<lparr>a_id = Some '''', a_name = ''A''\<rparr>],
            rec_releasegroups = Some [album_group]\<rparr>]"
    by code_simp
  show ?thesis
    by (intro conjI c v merged_artists_are_first_seen [OF c])
qed

text \<open>
  C7. When the merger completes, its output is ordered by title in the order in which the
  titles first occur, and under a title by artist key in the order in which the keys
  first occur under that title. With interleaved titles this is not the order in which
  the keys first occur in the input.
\<close>

theorem merger_output_order:
  "(input_contract recs \<longrightarrow>
      (\<exists>out. snd (merge_matching_recordings recs) = Inr out \<and>
         map merge_key out =
           map Some (concat (map (\<lambda>t. map (\<lambda>k. (t, k)) (first_keys recs t))
                                 (first_titles recs))))) \<and>
   (\<exists>out. snd (merge_matching_recordings interleaved) = Inr out \<and>
      map merge_key out \<noteq>
        map Some (first_occurrences (List.map_filter merge_key interleaved)))"
proof (intro conjI impI)
  assume "input_contract recs"
  then have "snd (merge_matching_recordings recs) =
      Inr (map (merged_bucket recs) (bucket_order recs))"
    by (simp add: merge_matching_recordings_contract)
  moreover have "map merge_key (map (merged_bucket recs) (bucket_order recs)) =
      map Some (concat (map (\<lambda>t. map (\<lambda>k. (t, k)) (first_keys recs t)) (first_titles recs)))"
    using map_merge_key_merged [of recs] by (simp add: bucket_order_def)
  ultimately show "\<exists>out. snd (merge_matching_recordings recs) = Inr out \<and>
         map merge_key out =
           map Some (concat (map (\<lambda>t. map (\<lambda>k. (t, k)) (first_keys recs t))
                                 (first_titles recs)))"
    by blast
next
  have 1: "snd (merge_matching_recordings interleaved) =
      Inr [example_recording ''A'' ''1'' [], example_recording ''A'' ''2'' [],
           example_recording ''B'' ''1'' []]"
    by code_simp
  have 2: "map merge_key [example_recording ''A'' ''1'' [], example_recording ''A'' ''2'' [],
           example_recording ''B'' ''1'' []] \<noteq>
        map Some (first_occurrences (List.map_filter merge_key interleaved))"
    by code_simp
  from 1 2 show "\<exists>out. snd (merge_matching_recordings interleaved) = Inr out \<and>
      map merge_key out \<noteq>
        map Some (first_occurrences (List.map_filter merge_key interleaved))"
    by blast
qed

text \<open>An instance: the titles \<open>A\<close>, \<open>B\<close>, \<open>A\<close>.\<close>

theorem merger_output_order_witness:
  "input_contract interleaved \<and>
   (\<exists>out. snd (merge_matching_recordings interleaved) = Inr out \<and>
      map merge_key out = [Some (''A'', ''1''), Some (''A'', ''2''), Some (''B'', ''1'')]) \<and>
   first_occurrences (List.map_filter merge_key interleaved) =
     [(''A'', ''1''), (''B'', ''1''), (''A'', ''2'')]"
proof -
  have c: "input_contract interleaved" by code_simp
  have v: "map Some (concat (map (\<lambda>t. map (\<lambda>k. (t, k)) (first_keys interleaved t))
                               (first_titles interleaved))) =
      [Some (''A'', ''1''), Some (''A'', ''2''), Some (''B'', ''1'')]"
    by code_simp
  have f: "first_occurrences (List.map_filter merge_key interleaved) =
     [(''A'', ''1''), (''B'', ''1''), (''A'', ''2'')]"
    by code_simp
  show ?thesis
    using c f merger_output_order [of interleaved] unfolding v by blast
qed

text \<open>
  C8. For each merged recording the result builder appends the key
  \<open>title + "_" + artist\<close> to the registry exactly when the registry does not hold it
  yet: once for the recording, whatever the number of its release groups, also when
  there are none.
\<close>

theorem registry_records_each_merged_recording:
  "fst (get_results_for_recordings reg (map merged ms)) =
     foldl (\<lambda>seen key. if key \<in> set seen then seen else seen @ [key]) reg
       (map registry_key ms) \<and>
   fst (get_results_for_recordings reg [merged (t, as, gs)]) =
     (if t @ ''_'' @ str_join ''; '' (map a_name as) \<in> set reg then reg
      else reg @ [t @ ''_'' @ str_join ''; '' (map a_name as)]) \<and>
   get_results_for_recordings reg [merged (t, as, [])] =
     (if t @ ''_'' @ str_join ''; '' (map a_name as) \<in> set reg then reg
      else reg @ [t @ ''_'' @ str_join ''; '' (map a_name as)], Inr [])"
proof -
  have f: "append_if_new = (\<lambda>seen key. if key \<in> set seen then seen else seen @ [key])"
    by (simp add: fun_eq_iff append_if_new_def)
  have 1: "get_results_for_recordings reg (map merged ms) =
      (foldl append_if_new reg (map registry_key ms), Inr (concat (map expand ms)))" for ms
    by (simp add: get_results_for_recordings_def get_results_loop_merged)
  from 1 [of ms] have "fst (get_results_for_recordings reg (map merged ms)) =
     foldl (\<lambda>seen key. if key \<in> set seen then seen else seen @ [key]) reg
       (map registry_key ms)"
    by (simp add: f)
  moreover from 1 [of "[(t, as, gs)]"]
  have "fst (get_results_for_recordings reg [merged (t, as, gs)]) =
     (if t @ ''_'' @ str_join ''; '' (map a_name as) \<in> set reg then reg
      else reg @ [t @ ''_'' @ str_join ''; '' (map a_name as)])"
    by (simp add: registry_key_def append_if_new_def)
  moreover from 1 [of "[(t, as, [])]"]
  have "get_results_for_recordings reg [merged (t, as, [])] =
     (if t @ ''_'' @ str_join ''; '' (map a_name as) \<in> set reg then reg
      else reg @ [t @ ''_'' @ str_join ''; '' (map a_name as)], Inr [])"
    by (simp add: registry_key_def append_if_new_def expand_def)
  ultimately show ?thesis by blast
qed

text \<open>
  An instance: the key is already there, the key is new, and a recording without release
  groups.
\<close>

theorem registry_records_each_merged_recording_witness:
  "fst (get_results_for_recordings [''Foo_N'']
          [merged (''Foo'', [\<lparr>a_id = None, a_name = ''N''\<rparr>], [album_group, compilation])]) =
     [''Foo_N''] \<and>
   fst (get_results_for_recordings [''Bar_N'']
          [merged (''Foo'', [\<lparr>a_id = None, a_name = ''N''\<rparr>], [album_group, compilation])]) =
     [''Bar_N'', ''Foo_N''] \<and>
   get_results_for_recordings [] [merged (''Foo'', [\<lparr>a_id = None, a_name = ''N''\<rparr>], [])] =
     ([''Foo_N''], Inr [])"
  using registry_records_each_merged_recording [of "[''Foo_N'']" "[]" "''Foo''"
      "[\<lparr>a_id = None, a_name = ''N''\<rparr>]" "[album_group, compilation]"]
    registry_records_each_merged_recording [of "[''Bar_N'']" "[]" "''Foo''"
      "[\<lparr>a_id = None, a_name = ''N''\<rparr>]" "[album_group, compilation]"]
    registry_records_each_merged_recording [of "[]" "[]" "''Foo''"
      "[\<lparr>a_id = None, a_name = ''N''\<rparr>]" "[]"]
  by simp

text \<open>
  C9. When some recording with a title and artists has no \<open>releasegroups\<close>, the merger
  and with it the whole lookup raise \<open>KeyError\<close> for the key \<open>releasegroups\<close>: the
  recording is not skipped. When every recording with a title and artists has
  \<open>releasegroups\<close>, the merger and the whole lookup return a list.
\<close>

theorem missing_releasegroups_raise_KeyError:
  "((\<exists>r \<in> set recs. rec_title r \<noteq> None \<and> rec_artists r \<noteq> None \<and>
        rec_releasegroups r = None) \<longrightarrow>
      snd (merge_matching_recordings recs) = Inl (KeyError ''releasegroups'')) \<and>
   ((\<forall>r \<in> set recs. rec_title r \<noteq> None \<and> rec_artists r \<noteq> None \<longrightarrow>
        rec_releasegroups r \<noteq> None) \<longrightarrow>
      (\<exists>out. snd (merge_matching_recordings recs) = Inr out)) \<and>
   (resp_status data = ''ok'' \<and> resp_results data = Some es \<and> recs = all_recordings es \<longrightarrow>
      ((\<exists>r \<in> set recs. rec_title r \<noteq> None \<and> rec_artists r \<noteq> None \<and>
          rec_releasegroups r = None) \<longrightarrow>
        snd (parse_lookup_result data reg) = Inl (KeyError ''releasegroups'')) \<and>
      ((\<forall>r \<in> set recs. rec_title r \<noteq> None \<and> rec_artists r \<noteq> None \<longrightarrow>
          rec_releasegroups r \<noteq> None) \<longrightarrow>
        (\<exists>out. snd (parse_lookup_result data reg) = Inr out)))"
proof -
  have c: "input_contract recs \<longleftrightarrow>
      (\<forall>r \<in> set recs. rec_title r \<noteq> None \<and> rec_artists r \<noteq> None \<longrightarrow>
        rec_releasegroups r \<noteq> None)" for recs
    by (simp add: input_contract_def merge_key_None_iff complete_def)
  have v: "\<not> input_contract recs \<longleftrightarrow>
      (\<exists>r \<in> set recs. rec_title r \<noteq> None \<and> rec_artists r \<noteq> None \<and>
        rec_releasegroups r = None)" for recs
    by (auto simp: c)
  have 1: "\<not> input_contract recs \<Longrightarrow>
      snd (merge_matching_recordings recs) = Inl (KeyError ''releasegroups'')"
    by (simp add: merge_matching_recordings_general)
  have 2: "input_contract recs \<Longrightarrow> \<exists>out. snd (merge_matching_recordings recs) = Inr out"
    by (simp add: merge_matching_recordings_general)
  have 3: "snd (parse_lookup_result data reg) = Inl (KeyError ''releasegroups'')"
    if "resp_status data = ''ok''" "resp_results data = Some es" "recs = all_recordings es"
      "\<not> input_contract recs"
    using that by (simp add: parse_lookup_result_violation)
  have 4: "\<exists>out. snd (parse_lookup_result data reg) = Inr out"
    if "resp_status data = ''ok''" "resp_results data = Some es" "recs = all_recordings es"
      "input_contract recs"
    using that by (simp add: parse_lookup_result_contract)
  show ?thesis
    using 1 2 3 4 unfolding v [symmetric] c [symmetric] by blast
qed

text \<open>
  An instance of each case: a recording without \<open>releasegroups\<close> in the second result
  entry, and a response whose recordings all have them.
\<close>

theorem missing_releasegroups_raise_KeyError_witness:
  "snd (merge_matching_recordings
          [example_recording ''A'' ''1'' [], bare_recording, example_recording ''B'' ''1'' []]) =
     Inl (KeyError ''releasegroups'') \<and>
   snd (parse_lookup_result
          (response [entry ''e'' [example_recording ''A'' ''1'' []],
                     entry ''f'' [bare_recording, example_recording ''B'' ''1'' []]]) []) =
     Inl (KeyError ''releasegroups'') \<and>
   (\<exists>out. snd (merge_matching_recordings interleaved) = Inr out) \<and>
   (\<exists>out. snd (parse_lookup_result (response [entry ''e'' interleaved]) []) = Inr out)"
proof -
  let ?bad = "[example_recording ''A'' ''1'' [], bare_recording, example_recording ''B'' ''1'' []]"
  let ?es = "[entry ''e'' [example_recording ''A'' ''1'' []],
              entry ''f'' [bare_recording, example_recording ''B'' ''1'' []]]"
  have bad: "\<exists>r \<in> set ?bad. rec_title r \<noteq> None \<and> rec_artists r \<noteq> None \<and>
      rec_releasegroups r = None"
    by code_simp
  have good: "\<forall>r \<in> set interleaved. rec_title r \<noteq> None \<and> rec_artists r \<noteq> None \<longrightarrow>
      rec_releasegroups r \<noteq> None"
    by code_simp
  have d1: "resp_status (response ?es) = ''ok'' \<and> resp_results (response ?es) = Some ?es \<and>
      ?bad = all_recordings ?es"
    by code_simp
  have d2: "resp_status (response [entry ''e'' interleaved]) = ''ok'' \<and>
      resp_results (response [entry ''e'' interleaved]) = Some [entry ''e'' interleaved] \<and>
      interleaved = all_recordings [entry ''e'' interleaved]"
    by code_simp
  show ?thesis
    using bad good d1 d2
      missing_releasegroups_raise_KeyError [of ?bad "response ?es" ?es "[]"]
      missing_releasegroups_raise_KeyError
        [of interleaved "response [entry ''e'' interleaved]" "[entry ''e'' interleaved]" "[]"]
    by blast
qed

text \<open>
  C10. The merger writes into its input: in every recording that its loop reaches and that
  has a title and artists, each artist without \<open>id\<close> receives the id \<open>""\<close>;
  nothing else of the input changes. The loop reaches every recording unless it raises
  (see C9), and then the recordings up to the one it raises on. The rest of the lookup
  writes nothing into the response, and a response that the validator rejects is
  unchanged.
\<close>

theorem merger_writes_missing_ids:
  "fst (merge_matching_recordings recs) =
     map setdefault_recording (take (visited recs) recs) @ drop (visited recs) recs \<and>
   (input_contract recs \<longrightarrow>
      fst (merge_matching_recordings recs) =
        map (\<lambda>r. case rec_title r of None \<Rightarrow> r
                 | Some t \<Rightarrow> (case rec_artists r of None \<Rightarrow> r
                     | Some as \<Rightarrow> r\<lparr>rec_artists := Some (map (\<lambda>a.
                         case a_id a of None \<Rightarrow> a\<lparr>a_id := Some ''''\<rparr> | Some i \<Rightarrow> a) as)\<rparr>))
          recs) \<and>
   (resp_status data = ''ok'' \<and> resp_results data = Some es \<and>
    input_contract (all_recordings es) \<longrightarrow>
      fst (fst (parse_lookup_result data reg)) =
        data\<lparr>resp_results := Some (map (map_entry (map setdefault_recording)) es)\<rparr>) \<and>
   (resp_status data \<noteq> ''ok'' \<or> resp_results data = None \<longrightarrow>
      fst (fst (parse_lookup_result data reg)) = data)"
proof -
  have s: "setdefault_recording =
      (\<lambda>r. case rec_title r of None \<Rightarrow> r
           | Some t \<Rightarrow> (case rec_artists r of None \<Rightarrow> r
               | Some as \<Rightarrow> r\<lparr>rec_artists := Some (map (\<lambda>a.
                   case a_id a of None \<Rightarrow> a\<lparr>a_id := Some ''''\<rparr> | Some i \<Rightarrow> a) as)\<rparr>))"
    by (auto simp: fun_eq_iff setdefault_recording_def setdefault_id_def
        split: option.splits)
  have 1: "fst (merge_matching_recordings recs) =
     map setdefault_recording (take (visited recs) recs) @ drop (visited recs) recs"
    by (simp add: merge_matching_recordings_general)
  have 2: "input_contract recs \<Longrightarrow>
     fst (merge_matching_recordings recs) = map setdefault_recording recs"
    by (simp add: merge_matching_recordings_contract)
  have 3: "fst (fst (parse_lookup_result data reg)) =
        data\<lparr>resp_results := Some (map (map_entry (map setdefault_recording)) es)\<rparr>"
    if "resp_status data = ''ok''" "resp_results data = Some es"
      "input_contract (all_recordings es)"
    using that by (simp add: parse_lookup_result_contract)
  have 4: "resp_status data \<noteq> ''ok'' \<or> resp_results data = None \<Longrightarrow>
      fst (fst (parse_lookup_result data reg)) = data"
    by (auto simp: parse_lookup_result_def)
  show ?thesis
    using 1 2 3 4 unfolding s [symmetric] by blast
qed

text \<open>
  An instance: an artist without id in a complete recording and in a recording without
  title; a loop that raises on its first recording; the same through the whole lookup;
  and a rejected response.
\<close>

theorem merger_writes_missing_ids_witness:
  "input_contract [anonymous_recording ''Foo'' ''A'' [album_group], untitled_recording,
                   example_recording ''Foo'' ''x'' []] \<and>
   fst (merge_matching_recordings
          [anonymous_recording ''Foo'' ''A'' [album_group], untitled_recording,
           example_recording ''Foo'' ''x'' []]) =
     [\<lparr>rec_id = Some ''r'', rec_title = Some ''Foo'',
        rec_artists = Some [\<lparr>a_id = Some '''', a_name = ''A''\<rparr>],
        rec_releasegroups = Some [album_group]\<rparr>,
      untitled_recording, example_recording ''Foo'' ''x'' []] \<and>
   fst (merge_matching_recordings [bare_recording, anonymous_recording ''Foo'' ''A'' []]) =
     [bare_recording\<lparr>rec_artists := Some [\<lparr>a_id = Some '''', a_name = ''N''\<rparr>]\<rparr>,
      anonymous_recording ''Foo'' ''A'' []] \<and>
   fst (fst (parse_lookup_result
          (response [entry ''e'' [anonymous_recording ''Foo'' ''A'' [album_group]],
                     entry ''f'' [untitled_recording]]) [])) =
     response [entry ''e'' [\<lparr>rec_id = Some ''r'', rec_title = Some ''Foo'',
                              rec_artists = Some [\<lparr>a_id = Some '''', a_name = ''A''\<rparr>],
                              rec_releasegroups = Some [album_group]\<rparr>],
               entry ''f'' [untitled_recording]] \<and>
   fst (fst (parse_lookup_result
          \<lparr>resp_status = ''error'',
           resp_results = Some [entry ''e'' [anonymous_recording ''Foo'' ''A'' []]]\<rparr> [])) =
     \<lparr>resp_status = ''error'',
      resp_results = Some [entry ''e'' [anonymous_recording ''Foo'' ''A'' []]]\<rparr>"
proof -
  let ?recs = "[anonymous_recording ''Foo'' ''A'' [album_group], untitled_recording,
                example_recording ''Foo'' ''x'' []]"
  let ?bad = "[bare_recording, anonymous_recording ''Foo'' ''A'' []]"
  let ?es = "[entry ''e'' [anonymous_recording ''Foo'' ''A'' [album_group]],
              entry ''f'' [untitled_recording]]"
  let ?rejected = "\<lparr>resp_status = ''error'',
      resp_results = Some [entry ''e'' [anonymous_recording ''Foo'' ''A'' []]]\<rparr>"
  have c: "input_contract ?recs" by code_simp
  have v: "map (\<lambda>r. case rec_title r of None \<Rightarrow> r
                 | Some t \<Rightarrow> (case rec_artists r of None \<Rightarrow> r
                     | Some as \<Rightarrow> r\<lparr>rec_artists := Some (map (\<lambda>a.
                         case a_id a of None \<Rightarrow> a\<lparr>a_id := Some ''''\<rparr> | Some i \<Rightarrow> a) as)\<rparr>))
          ?recs =
     [\<lparr>rec_id = Some ''r'', rec_title = Some ''Foo'',
        rec_artists = Some [\<lparr>a_id = Some '''', a_name = ''A''\<rparr>],
        rec_releasegroups = Some [album_group]\<rparr>,
      untitled_recording, example_recording ''Foo'' ''x'' []]"
    by (simp add: anonymous_recording_def untitled_recording_def example_recording_def)
  have w: "map setdefault_recording (take (visited ?bad) ?bad) @ drop (visited ?bad) ?bad =
     [bare_recording\<lparr>rec_artists := Some [\<lparr>a_id = Some '''', a_name = ''N''\<rparr>]\<rparr>,
      anonymous_recording ''Foo'' ''A'' []]"
    by (simp add: bare_recording_def merge_key_def setdefault_recording_def setdefault_id_def)
  have d: "resp_status (response ?es) = ''ok'' \<and> resp_results (response ?es) = Some ?es \<and>
      input_contract (all_recordings ?es)"
    by code_simp
  have u: "(response ?es)\<lparr>resp_results :=
        Some (map (map_entry (map setdefault_recording)) ?es)\<rparr> =
     response [entry ''e'' [\<lparr>rec_id = Some ''r'', rec_title = Some ''Foo'',
                              rec_artists = Some [\<lparr>a_id = Some '''', a_name = ''A''\<rparr>],
                              rec_releasegroups = Some [album_group]\<rparr>],
               entry ''f'' [untitled_recording]]"
    by (simp add: response_def entry_def map_entry_def setdefault_recording_def
        anonymous_recording_def untitled_recording_def setdefault_id_def)
  have r: "resp_status ?rejected \<noteq> ''ok'' \<or> resp_results ?rejected = None"
    by simp
  have 1: "fst (merge_matching_recordings ?recs) =
     [\<lparr>rec_id = Some ''r'', rec_title = Some ''Foo'',
        rec_artists = Some [\<lparr>a_id = Some '''', a_name = ''A''\<rparr>],
        rec_releasegroups = Some [album_group]\<rparr>,
      untitled_recording, example_recording ''Foo'' ''x'' []]"
    using c merger_writes_missing_ids [of ?recs] unfolding v by blast
  have 2: "fst (merge_matching_recordings ?bad) =
     [bare_recording\<lparr>rec_artists := Some [\<lparr>a_id = Some '''', a_name = ''N''\<rparr>]\<rparr>,
      anonymous_recording ''Foo'' ''A'' []]"
    using merger_writes_missing_ids [of ?bad] unfolding w by blast
  have 3: "fst (fst (parse_lookup_result (response ?es) [])) =
     response [entry ''e'' [\<lparr>rec_id = Some ''r'', rec_title = Some ''Foo'',
                              rec_artists = Some [\<lparr>a_id = Some '''', a_name = ''A''\<rparr>],
                              rec_releasegroups = Some [album_group]\<rparr>],
               entry ''f'' [untitled_recording]]"
    using d merger_writes_missing_ids [of _ "response ?es" ?es "[]"] unfolding u by blast
  have 4: "fst (fst (parse_lookup_result ?rejected [])) = ?rejected"
    using r merger_writes_missing_ids [of _ ?rejected _ "[]"] by blast
  show ?thesis
    by (intro conjI c 1 2 3 4)
qed

end
